theory Spec2Isabelle
  imports Complex_Main "HOL-Library.Log_Nat" "HOL-Library.Multiset"
begin

section \<open>Double-precision arithmetic\<close>

text \<open>
  A JavaScript \<open>number\<close> is an IEEE 754 binary64 value. The model holds a finite double as
  the \<open>real\<close> it denotes and rounds the exact result of every arithmetic operation to the
  nearest double, a tie going to the even significand: 53 significant bits for a normal
  number, multiples of \<open>2 powi - 1074\<close> below \<open>2 powi - 1022\<close>. Three things of the format are
  left out: overflow to an infinity (results are taken to stay below \<open>2 ^ 1024\<close>), \<open>NaN\<close>
  (written \<open>None\<close> where the source can produce one) and the sign of zero. Epoch values and
  view counts are integers below \<open>2 ^ 53\<close> in magnitude, on which the arithmetic of doubles
  is exact; they are of type \<open>int\<close>.

  \<open>floorLog2 x\<close> is the binary exponent of a positive \<open>x\<close>, \<open>ulpExponent x\<close> the exponent of the
  last place of the doubles around \<open>x\<close>, and \<open>rnd x\<close> the double nearest to \<open>x\<close>.
\<close>

definition floorLog2 :: "real \<Rightarrow> int" where
  "floorLog2 x = (if 1 \<le> x then bitlen \<lfloor>x\<rfloor> - 1 else - bitlen (\<lceil>1 / x\<rceil> - 1))"

definition roundHalfEven :: "real \<Rightarrow> int" where
  "roundHalfEven q =
     (let f = \<lfloor>q\<rfloor>; d = q - of_int f
      in if d < 1 / 2 then f else if d > 1 / 2 then f + 1 else if even f then f else f + 1)"

definition ulpExponent :: "real \<Rightarrow> int" where
  "ulpExponent x = max (floorLog2 \<bar>x\<bar> - 52) (- 1074)"

definition rnd :: "real \<Rightarrow> real" where
  "rnd x = (if x = 0 then 0
            else (let e = ulpExponent x
                  in of_int (roundHalfEven (x / 2 powi e)) * 2 powi e))"


text \<open>
  The operators \<open>+\<close>, \<open>-\<close>, \<open>*\<close> and \<open>/\<close> of the source on two doubles. A decimal literal of
  the source is the double nearest to it: \<open>0.3\<close> is \<open>rnd 0.3\<close>. The literals \<open>2.5\<close>, \<open>5\<close>,
  \<open>10\<close>, \<open>100\<close> and the integer column values are doubles themselves. Comparisons,
  \<open>Math.abs\<close>, \<open>Math.min\<close> and \<open>Math.max\<close> are exact on doubles. No divisor of \<open>fdiv\<close>
  below is zero: each is a positive constant, the length of a non-empty array, a mean tested
  positive or a baseline tested non-zero.
\<close>

definition fadd :: "real \<Rightarrow> real \<Rightarrow> real" where
  "fadd x y = rnd (x + y)"

definition fsub :: "real \<Rightarrow> real \<Rightarrow> real" where
  "fsub x y = rnd (x - y)"

definition fmul :: "real \<Rightarrow> real \<Rightarrow> real" where
  "fmul x y = rnd (x * y)"

definition fdiv :: "real \<Rightarrow> real \<Rightarrow> real" where
  "fdiv x y = rnd (x / y)"

text \<open>
  \<open>Math.sqrt\<close> is the correctly rounded square root. Its argument in the source is a mean of
  squares, never negative; a negative argument (\<open>NaN\<close> in the source) is given \<open>0\<close> here.
  \<open>isqrt\<close> is the integer square root by which \<open>fsqrt\<close> is evaluated.
\<close>

definition fsqrt :: "real \<Rightarrow> real" where
  "fsqrt x = (if x \<le> 0 then 0 else rnd (sqrt x))"

function isqrt :: "int \<Rightarrow> int" where
  "isqrt n = (if n \<le> 0 then 0
              else (let r = 2 * isqrt (n div 4)
                    in if (r + 1) * (r + 1) \<le> n then r + 1 else r))"
  by pat_completeness auto

termination isqrt
  by (relation "measure nat") auto

declare isqrt.simps [simp del]

section \<open>Data model\<close>

text \<open>
  The engine reads three tables of hourly rows (\<open>pageviews_hourly\<close>, \<open>useractions_hourly\<close>,
  \<open>performance_hourly\<close>). A \<open>Date\<close> is its epoch value in milliseconds (\<open>getTime()\<close>), an
  \<open>int\<close>. The \<open>Float\<close> columns hold doubles, as \<open>real\<close>; the \<open>Int\<close> columns hold integers. The
  columns \<open>id\<close> and \<open>createdAt\<close> are never read and are left out. The row records share column
  names in the source; here each carries a table prefix.
\<close>

record pageViewsRow =
  pv_timestamp :: int
  pv_page :: string
  pv_pageCategory :: string
  pv_viewCount :: int
  pv_referrer :: string
  pv_deviceType :: string
  pv_region :: string

record userActionsRow =
  ua_timestamp :: int
  ua_page :: string
  ua_pageCategory :: string
  ua_avgSessionDuration :: real
  ua_bounceRate :: real
  ua_conversionRate :: real
  ua_conversionCount :: int
  ua_deviceType :: string
  ua_referrer :: string
  ua_region :: string

record performanceRow =
  pf_timestamp :: int
  pf_page :: string
  pf_pageCategory :: string
  pf_avgLoadTime :: real
  pf_errorRate :: real
  pf_deviceType :: string
  pf_region :: string

record database =
  pageViewsHourly :: "pageViewsRow list"
  userActionsHourly :: "userActionsRow list"
  performanceHourly :: "performanceRow list"

text \<open>
  \<open>detectMetricAnomaly\<close> holds its rows in variables of type \<open>any[]\<close>: they come from
  either of two tables. A property that the row's table does not have reads as
  \<open>undefined\<close>, here \<open>None\<close>.
\<close>

datatype anyRow = UserActionsRow userActionsRow | PerformanceRow performanceRow

fun row_page :: "anyRow \<Rightarrow> string" where
  "row_page (UserActionsRow r) = ua_page r"
| "row_page (PerformanceRow r) = pf_page r"

fun row_timestamp :: "anyRow \<Rightarrow> int" where
  "row_timestamp (UserActionsRow r) = ua_timestamp r"
| "row_timestamp (PerformanceRow r) = pf_timestamp r"

fun row_deviceType :: "anyRow \<Rightarrow> string option" where
  "row_deviceType (UserActionsRow r) = Some (ua_deviceType r)"
| "row_deviceType (PerformanceRow r) = Some (pf_deviceType r)"

fun row_region :: "anyRow \<Rightarrow> string option" where
  "row_region (UserActionsRow r) = Some (ua_region r)"
| "row_region (PerformanceRow r) = Some (pf_region r)"

fun row_referrer :: "anyRow \<Rightarrow> string option" where
  "row_referrer (UserActionsRow r) = Some (ua_referrer r)"
| "row_referrer (PerformanceRow r) = None"

fun row_pageCategory :: "anyRow \<Rightarrow> string option" where
  "row_pageCategory (UserActionsRow r) = Some (ua_pageCategory r)"
| "row_pageCategory (PerformanceRow r) = Some (pf_pageCategory r)"

text \<open>The five value extractors passed to \<open>detectMetricAnomaly\<close>.\<close>

fun get_avgSessionDuration :: "anyRow \<Rightarrow> real option" where
  "get_avgSessionDuration (UserActionsRow r) = Some (ua_avgSessionDuration r)"
| "get_avgSessionDuration (PerformanceRow r) = None"

fun get_bounceRate :: "anyRow \<Rightarrow> real option" where
  "get_bounceRate (UserActionsRow r) = Some (ua_bounceRate r)"
| "get_bounceRate (PerformanceRow r) = None"

fun get_conversionRate :: "anyRow \<Rightarrow> real option" where
  "get_conversionRate (UserActionsRow r) = Some (ua_conversionRate r)"
| "get_conversionRate (PerformanceRow r) = None"

fun get_avgLoadTime :: "anyRow \<Rightarrow> real option" where
  "get_avgLoadTime (UserActionsRow r) = None"
| "get_avgLoadTime (PerformanceRow r) = Some (pf_avgLoadTime r)"

fun get_errorRate :: "anyRow \<Rightarrow> real option" where
  "get_errorRate (UserActionsRow r) = None"
| "get_errorRate (PerformanceRow r) = Some (pf_errorRate r)"

text \<open>\<open>AnomalyDetectionResult\<close> and its \<open>context\<close> object (interfaces/insight.interface.ts).\<close>

record anomalyContext =
  deviceType :: "string option"
  region :: "string option"
  referrer :: "string option"
  pageCategory :: "string option"

record anomalyDetectionResult =
  page :: string
  metricType :: string
  metric :: string
  currentValue :: real
  baselineMean :: real
  baselineStdDev :: real
  percentageChange :: real
  timestamp :: int
  context' :: anomalyContext

section \<open>Repository queries\<close>

text \<open>
  A Prisma \<open>where\<close> object: the page, the \<open>timestamp\<close> filter (\<open>gte\<close>, and \<open>lt\<close> when the
  query gives one) and the equality filters on the dimensions, each present only when the
  caller set it. \<open>findMany\<close> without \<open>orderBy\<close> returns the matching rows in table order.
\<close>

record timestampFilter =
  gte :: int
  lt :: "int option"

record whereClause =
  w_page :: string
  w_timestamp :: timestampFilter
  w_deviceType :: "string option"
  w_referrer :: "string option"
  w_region :: "string option"

definition inTimestampFilter :: "timestampFilter \<Rightarrow> int \<Rightarrow> bool" where
  "inTimestampFilter f t =
     (gte f \<le> t \<and> (case lt f of None \<Rightarrow> True | Some e \<Rightarrow> t < e))"

definition columnMatches :: "string option \<Rightarrow> string \<Rightarrow> bool" where
  "columnMatches wanted v = (case wanted of None \<Rightarrow> True | Some s \<Rightarrow> v = s)"

definition pageWhere :: "string \<Rightarrow> int \<Rightarrow> int option \<Rightarrow> whereClause" where
  "pageWhere p from until =
     \<lparr>w_page = p, w_timestamp = \<lparr>gte = from, lt = until\<rparr>,
      w_deviceType = None, w_referrer = None, w_region = None\<rparr>"

definition findManyPageViews :: "database \<Rightarrow> whereClause \<Rightarrow> pageViewsRow list" where
  "findManyPageViews db w =
     filter (\<lambda>d. pv_page d = w_page w \<and> inTimestampFilter (w_timestamp w) (pv_timestamp d)
                \<and> columnMatches (w_deviceType w) (pv_deviceType d)
                \<and> columnMatches (w_referrer w) (pv_referrer d)
                \<and> columnMatches (w_region w) (pv_region d))
       (pageViewsHourly db)"

definition findManyUserActions :: "database \<Rightarrow> whereClause \<Rightarrow> userActionsRow list" where
  "findManyUserActions db w =
     filter (\<lambda>d. ua_page d = w_page w \<and> inTimestampFilter (w_timestamp w) (ua_timestamp d)
                \<and> columnMatches (w_deviceType w) (ua_deviceType d)
                \<and> columnMatches (w_referrer w) (ua_referrer d)
                \<and> columnMatches (w_region w) (ua_region d))
       (userActionsHourly db)"

definition findManyPerformance :: "database \<Rightarrow> whereClause \<Rightarrow> performanceRow list" where
  "findManyPerformance db w =
     filter (\<lambda>d. pf_page d = w_page w \<and> inTimestampFilter (w_timestamp w) (pf_timestamp d)
                \<and> columnMatches (w_deviceType w) (pf_deviceType d)
                \<and> columnMatches (w_region w) (pf_region d))
       (performanceHourly db)"

definition findFirstUserActions :: "database \<Rightarrow> whereClause \<Rightarrow> userActionsRow option" where
  "findFirstUserActions db w =
     (case findManyUserActions db w of [] \<Rightarrow> None | r # _ \<Rightarrow> Some r)"

text \<open>
  \<open>getUniquePages\<close>: \<open>findMany\<close> with \<open>distinct: ['page']\<close>, which keeps the first row of each
  page in table order.
\<close>

fun distinctFirst :: "string list \<Rightarrow> string list" where
  "distinctFirst [] = []"
| "distinctFirst (p # ps) = p # filter (\<lambda>q. q \<noteq> p) (distinctFirst ps)"

definition getUniquePages :: "database \<Rightarrow> string list" where
  "getUniquePages db = distinctFirst (map pv_page (pageViewsHourly db))"

section \<open>Statistics\<close>

text \<open>
  \<open>values.reduce((sum, val) => sum + val, 0) / values.length\<close> and the population standard
  deviation, each operation rounded. \<open>Math.pow(d, 2)\<close> is taken as the correctly rounded square
  of \<open>d\<close>, the product \<open>d * d\<close>.
\<close>

definition calculateMean :: "real list \<Rightarrow> real" where
  "calculateMean values =
     (if length values = 0 then 0
      else fdiv (foldl (\<lambda>sum val. fadd sum val) 0 values) (real (length values)))"

definition calculateStdDev :: "real list \<Rightarrow> real \<Rightarrow> real" where
  "calculateStdDev values mean =
     (if length values = 0 then 0
      else (let variance =
                  fdiv (foldl (\<lambda>sum val. fadd sum (fmul (fsub val mean) (fsub val mean)))
                          0 values)
                    (real (length values))
            in fsqrt variance))"

section \<open>Strings\<close>

text \<open>\<open>String.prototype.includes\<close>: the argument occurs as a contiguous substring.\<close>

fun startsWith :: "string \<Rightarrow> string \<Rightarrow> bool" where
  "startsWith s [] = True"
| "startsWith [] (c # cs) = False"
| "startsWith (d # ds) (c # cs) = (d = c \<and> startsWith ds cs)"

fun stringIncludes :: "string \<Rightarrow> string \<Rightarrow> bool" where
  "stringIncludes [] sub = (sub = [])"
| "stringIncludes (d # ds) sub = (startsWith (d # ds) sub \<or> stringIncludes ds sub)"

section \<open>Anomaly detection\<close>

text \<open>
  The millisecond constants of the source: \<open>6 * 60 * 60 * 1000\<close> and \<open>30 * 60 * 60 * 1000\<close>.
\<close>

definition sixHours :: int where
  "sixHours = 6 * 60 * 60 * 1000"

definition thirtyHours :: int where
  "thirtyHours = 30 * 60 * 60 * 1000"

text \<open>
  The test of one recent value against the baseline statistics, as both detection loops
  write it: \<open>deviation > threshold && baselineMean > 0\<close>. The loops build an anomaly record
  only under this test, so the division in \<open>percentageChange\<close> is by a positive mean.
\<close>

definition isAnomalous :: "real \<Rightarrow> real \<Rightarrow> real \<Rightarrow> bool" where
  "isAnomalous mean stdDev v =
     (let deviation = \<bar>fsub v mean\<bar>; threshold = fmul 2.5 stdDev
      in deviation > threshold \<and> mean > 0)"

definition trafficAnomaly :: "real \<Rightarrow> real \<Rightarrow> pageViewsRow \<Rightarrow> anomalyDetectionResult" where
  "trafficAnomaly mean stdDev recent =
     \<lparr>page = pv_page recent, metricType = ''Traffic'', metric = ''PageViews'',
      currentValue = real_of_int (pv_viewCount recent),
      baselineMean = mean, baselineStdDev = stdDev,
      percentageChange = fmul (fdiv (fsub (real_of_int (pv_viewCount recent)) mean) mean) 100,
      timestamp = pv_timestamp recent,
      context' = \<lparr>deviceType = Some (pv_deviceType recent), region = Some (pv_region recent),
                  referrer = Some (pv_referrer recent),
                  pageCategory = Some (pv_pageCategory recent)\<rparr>\<rparr>"

text \<open>The loop \<open>for (const recent of recentData)\<close> with its \<open>anomalies.push\<close>.\<close>

definition trafficLoop ::
  "real \<Rightarrow> real \<Rightarrow> pageViewsRow list \<Rightarrow> anomalyDetectionResult list" where
  "trafficLoop mean stdDev recentData =
     foldl (\<lambda>anomalies recent.
              if isAnomalous mean stdDev (real_of_int (pv_viewCount recent))
              then anomalies @ [trafficAnomaly mean stdDev recent]
              else anomalies)
       [] recentData"

definition detectTrafficAnomalies ::
  "database \<Rightarrow> string \<Rightarrow> int \<Rightarrow> int \<Rightarrow> int \<Rightarrow> anomalyDetectionResult list" where
  "detectTrafficAnomalies db p recentStart baselineStart baselineEnd =
     (let baselineData = findManyPageViews db (pageWhere p baselineStart (Some baselineEnd))
      in if length baselineData = 0 then []
         else
           (let baselineValues = map (\<lambda>d. real_of_int (pv_viewCount d)) baselineData;
                mean = calculateMean baselineValues;
                stdDev = calculateStdDev baselineValues mean;
                recentData = findManyPageViews db (pageWhere p recentStart None)
            in trafficLoop mean stdDev recentData))"

text \<open>
  \<open>detectMetricAnomaly\<close> picks the table from the field name, then runs the same loop over
  \<open>valueExtractor\<close>. An extractor that reads \<open>undefined\<close> gives \<open>NaN\<close> in the arithmetic of
  the source, and every comparison with \<open>NaN\<close> is false: a baseline with such a value flags
  nothing, and such a recent row is not flagged.
\<close>

definition isUserActionsField :: "string \<Rightarrow> bool" where
  "isUserActionsField metricField =
     (stringIncludes metricField ''Session'' \<or> stringIncludes metricField ''bounce''
      \<or> stringIncludes metricField ''conversion'')"

definition findManyMetric :: "database \<Rightarrow> string \<Rightarrow> whereClause \<Rightarrow> anyRow list" where
  "findManyMetric db metricField w =
     (if isUserActionsField metricField
      then map UserActionsRow (findManyUserActions db w)
      else map PerformanceRow (findManyPerformance db w))"

definition metricAnomaly ::
  "string \<Rightarrow> string \<Rightarrow> real \<Rightarrow> real \<Rightarrow> anyRow \<Rightarrow> real \<Rightarrow> anomalyDetectionResult" where
  "metricAnomaly mType mName mean stdDev recent v =
     \<lparr>page = row_page recent, metricType = mType, metric = mName,
      currentValue = v, baselineMean = mean, baselineStdDev = stdDev,
      percentageChange = fmul (fdiv (fsub v mean) mean) 100,
      timestamp = row_timestamp recent,
      context' = \<lparr>deviceType = row_deviceType recent, region = row_region recent,
                  referrer = row_referrer recent, pageCategory = row_pageCategory recent\<rparr>\<rparr>"

definition metricLoop ::
  "string \<Rightarrow> string \<Rightarrow> (anyRow \<Rightarrow> real option) \<Rightarrow> real \<Rightarrow> real \<Rightarrow> anyRow list
     \<Rightarrow> anomalyDetectionResult list" where
  "metricLoop mType mName valueExtractor mean stdDev recentData =
     foldl (\<lambda>anomalies recent.
              case valueExtractor recent of
                None \<Rightarrow> anomalies
              | Some v \<Rightarrow>
                  if isAnomalous mean stdDev v
                  then anomalies @ [metricAnomaly mType mName mean stdDev recent v]
                  else anomalies)
       [] recentData"

definition detectMetricAnomaly ::
  "database \<Rightarrow> string \<Rightarrow> int \<Rightarrow> int \<Rightarrow> int \<Rightarrow> string \<Rightarrow> string \<Rightarrow> string
     \<Rightarrow> (anyRow \<Rightarrow> real option) \<Rightarrow> anomalyDetectionResult list" where
  "detectMetricAnomaly db p recentStart baselineStart baselineEnd metricField mType mName
       valueExtractor =
     (let baselineData =
            findManyMetric db metricField (pageWhere p baselineStart (Some baselineEnd))
      in if length baselineData = 0 then []
         else
           (case those (map valueExtractor baselineData) of
              None \<Rightarrow> []
            | Some baselineValues \<Rightarrow>
                (let mean = calculateMean baselineValues;
                     stdDev = calculateStdDev baselineValues mean;
                     recentData = findManyMetric db metricField (pageWhere p recentStart None)
                 in metricLoop mType mName valueExtractor mean stdDev recentData)))"

definition detectEngagementAnomalies ::
  "database \<Rightarrow> string \<Rightarrow> int \<Rightarrow> int \<Rightarrow> int \<Rightarrow> anomalyDetectionResult list" where
  "detectEngagementAnomalies db p recentStart baselineStart baselineEnd =
     detectMetricAnomaly db p recentStart baselineStart baselineEnd
         ''avgSessionDuration'' ''UserActions'' ''Session Duration'' get_avgSessionDuration
     @ detectMetricAnomaly db p recentStart baselineStart baselineEnd
         ''bounceRate'' ''Engagement'' ''Bounce Rate'' get_bounceRate
     @ detectMetricAnomaly db p recentStart baselineStart baselineEnd
         ''conversionRate'' ''Conversion'' ''Conversion Rate'' get_conversionRate"

definition detectPerformanceAnomalies ::
  "database \<Rightarrow> string \<Rightarrow> int \<Rightarrow> int \<Rightarrow> int \<Rightarrow> anomalyDetectionResult list" where
  "detectPerformanceAnomalies db p recentStart baselineStart baselineEnd =
     detectMetricAnomaly db p recentStart baselineStart baselineEnd
         ''avgLoadTime'' ''Performance'' ''Load Time'' get_avgLoadTime
     @ detectMetricAnomaly db p recentStart baselineStart baselineEnd
         ''errorRate'' ''Performance'' ''Error Rate'' get_errorRate"

text \<open>
  \<open>detectAnomalies\<close> reads the clock once (\<open>now\<close>) and runs the three detectors for each
  page, pushing their results in that order.
\<close>

definition detectAnomalies :: "database \<Rightarrow> int \<Rightarrow> anomalyDetectionResult list" where
  "detectAnomalies db now =
     (let recentStart = now - sixHours;
          baselineStart = now - thirtyHours;
          baselineEnd = now - sixHours;
          pages = getUniquePages db
      in foldl (\<lambda>anomalies p.
                  anomalies
                  @ detectTrafficAnomalies db p recentStart baselineStart baselineEnd
                  @ detectEngagementAnomalies db p recentStart baselineStart baselineEnd
                  @ detectPerformanceAnomalies db p recentStart baselineStart baselineEnd)
           [] pages)"

section \<open>Granular detection\<close>

text \<open>
  A combination \<open>{ page, deviceType?, referrer?, region? }\<close>. The guards
  \<open>if (combo.deviceType) where.deviceType = combo.deviceType\<close> set a filter only for a
  truthy value: a present, non-empty string.
\<close>

record combination =
  c_page :: string
  c_deviceType :: "string option"
  c_referrer :: "string option"
  c_region :: "string option"

definition whenTruthy :: "string option \<Rightarrow> string option" where
  "whenTruthy v = (case v of None \<Rightarrow> None | Some s \<Rightarrow> if s = [] then None else Some s)"

definition comboWhere :: "combination \<Rightarrow> int \<Rightarrow> int option \<Rightarrow> whereClause" where
  "comboWhere combo from until =
     \<lparr>w_page = c_page combo, w_timestamp = \<lparr>gte = from, lt = until\<rparr>,
      w_deviceType = whenTruthy (c_deviceType combo),
      w_referrer = whenTruthy (c_referrer combo),
      w_region = whenTruthy (c_region combo)\<rparr>"

definition detectTrafficAnomaliesGranular ::
  "database \<Rightarrow> combination \<Rightarrow> int \<Rightarrow> int \<Rightarrow> int \<Rightarrow> anomalyDetectionResult list" where
  "detectTrafficAnomaliesGranular db combo recentStart baselineStart baselineEnd =
     (let baselineData = findManyPageViews db (comboWhere combo baselineStart (Some baselineEnd))
      in if length baselineData = 0 then []
         else
           (let baselineValues = map (\<lambda>d. real_of_int (pv_viewCount d)) baselineData;
                mean = calculateMean baselineValues;
                stdDev = calculateStdDev baselineValues mean;
                recentData = findManyPageViews db (comboWhere combo recentStart None)
            in trafficLoop mean stdDev recentData))"

text \<open>The two remaining granular detectors of the source return the empty array.\<close>

definition detectEngagementAnomaliesGranular ::
  "database \<Rightarrow> combination \<Rightarrow> int \<Rightarrow> int \<Rightarrow> int \<Rightarrow> anomalyDetectionResult list" where
  "detectEngagementAnomaliesGranular db combo recentStart baselineStart baselineEnd = []"

definition detectPerformanceAnomaliesGranular ::
  "database \<Rightarrow> combination \<Rightarrow> int \<Rightarrow> int \<Rightarrow> int \<Rightarrow> anomalyDetectionResult list" where
  "detectPerformanceAnomaliesGranular db combo recentStart baselineStart baselineEnd = []"

text \<open>\<open>getUniqueCombinations\<close>: \<open>pages.map((page) => ({ page }))\<close>.\<close>

definition getUniqueCombinations :: "database \<Rightarrow> combination list" where
  "getUniqueCombinations db =
     map (\<lambda>p. \<lparr>c_page = p, c_deviceType = None, c_referrer = None, c_region = None\<rparr>)
       (getUniquePages db)"

definition detectGranularAnomalies :: "database \<Rightarrow> int \<Rightarrow> anomalyDetectionResult list" where
  "detectGranularAnomalies db now =
     (let recentStart = now - sixHours;
          baselineStart = now - thirtyHours;
          baselineEnd = now - sixHours;
          combinations = getUniqueCombinations db
      in foldl (\<lambda>anomalies combo.
                  anomalies
                  @ detectTrafficAnomaliesGranular db combo recentStart baselineStart baselineEnd
                  @ detectEngagementAnomaliesGranular db combo recentStart baselineStart
                      baselineEnd
                  @ detectPerformanceAnomaliesGranular db combo recentStart baselineStart
                      baselineEnd)
           [] combinations)"

section \<open>Correlation analysis\<close>

text \<open>
  \<open>change\<close> divides by the baseline value. Where that is \<open>0\<close> the source computes an
  infinity or \<open>NaN\<close>; the model writes \<open>None\<close> there.
\<close>

record correlatedMetric =
  cm_metric :: string
  cm_value :: real
  cm_change :: "real option"
  cm_correlation :: string

record correlationResult =
  primaryAnomaly :: anomalyDetectionResult
  correlatedMetrics :: "correlatedMetric list"

record conversionData =
  conversionRate :: real
  baselineRate :: real

record bounceData =
  bounceRate :: real
  baselineBounceRate :: real

definition oneHour :: int where
  "oneHour = 60 * 60 * 1000"

text \<open>
  \<open>hourStart.setMinutes(0, 0, 0)\<close> clears minutes, seconds and milliseconds of the local
  time. \<open>tz\<close> is the local zone's offset from UTC in milliseconds, taken as constant.
\<close>

definition hourStartOf :: "int \<Rightarrow> int \<Rightarrow> int" where
  "hourStartOf tz t = t - (t + tz) mod oneHour"

definition percentChange :: "real \<Rightarrow> real \<Rightarrow> real option" where
  "percentChange v base = (if base = 0 then None else Some (fmul (fdiv (fsub v base) base) 100))"

definition getConversionDataForPage ::
  "database \<Rightarrow> int \<Rightarrow> string \<Rightarrow> int \<Rightarrow> conversionData option" where
  "getConversionDataForPage db tz p ts =
     (let hourStart = hourStartOf tz ts;
          hourEnd = hourStart + 60 * 60 * 1000
      in case findFirstUserActions db (pageWhere p hourStart (Some hourEnd)) of
           None \<Rightarrow> None
         | Some recent \<Rightarrow>
             (let baselineStart = ts - 30 * 60 * 60 * 1000;
                  baselineEnd = ts - 6 * 60 * 60 * 1000;
                  baseline = findManyUserActions db (pageWhere p baselineStart (Some baselineEnd));
                  rate = (if length baseline > 0
                          then fdiv (foldl (\<lambda>sum d. fadd sum (ua_conversionRate d)) 0 baseline)
                                 (real (length baseline))
                          else ua_conversionRate recent)
              in Some \<lparr>conversionRate = ua_conversionRate recent, baselineRate = rate\<rparr>))"

definition getBounceRateForPage ::
  "database \<Rightarrow> int \<Rightarrow> string \<Rightarrow> int \<Rightarrow> bounceData option" where
  "getBounceRateForPage db tz p ts =
     (let hourStart = hourStartOf tz ts;
          hourEnd = hourStart + 60 * 60 * 1000
      in case findFirstUserActions db (pageWhere p hourStart (Some hourEnd)) of
           None \<Rightarrow> None
         | Some recent \<Rightarrow>
             (let baselineStart = ts - 30 * 60 * 60 * 1000;
                  baselineEnd = ts - 6 * 60 * 60 * 1000;
                  baseline = findManyUserActions db (pageWhere p baselineStart (Some baselineEnd));
                  rate = (if length baseline > 0
                          then fdiv (foldl (\<lambda>sum d. fadd sum (ua_bounceRate d)) 0 baseline)
                                 (real (length baseline))
                          else ua_bounceRate recent)
              in Some \<lparr>bounceRate = ua_bounceRate recent, baselineBounceRate = rate\<rparr>))"

text \<open>The two checks of one pass of the loop in \<open>analyzeCorrelations\<close>, in source order.\<close>

definition trafficCorrelation ::
  "database \<Rightarrow> int \<Rightarrow> anomalyDetectionResult \<Rightarrow> correlatedMetric list" where
  "trafficCorrelation db tz anomaly =
     (if metricType anomaly = ''Traffic'' \<and> percentageChange anomaly > 0
      then (case getConversionDataForPage db tz (page anomaly) (timestamp anomaly) of
              None \<Rightarrow> []
            | Some cd \<Rightarrow>
                if conversionRate cd < fmul (baselineRate cd) (rnd 0.9)
                then [\<lparr>cm_metric = ''Conversion Rate'', cm_value = conversionRate cd,
                       cm_change = percentChange (conversionRate cd) (baselineRate cd),
                       cm_correlation = ''traffic_up_conversions_down''\<rparr>]
                else [])
      else [])"

definition loadTimeCorrelation ::
  "database \<Rightarrow> int \<Rightarrow> anomalyDetectionResult \<Rightarrow> correlatedMetric list" where
  "loadTimeCorrelation db tz anomaly =
     (if metricType anomaly = ''Performance'' \<and> metric anomaly = ''Load Time''
         \<and> percentageChange anomaly > 0
      then (case getBounceRateForPage db tz (page anomaly) (timestamp anomaly) of
              None \<Rightarrow> []
            | Some bd \<Rightarrow>
                if bounceRate bd > fmul (baselineBounceRate bd) (rnd 1.1)
                then [\<lparr>cm_metric = ''Bounce Rate'', cm_value = bounceRate bd,
                       cm_change = percentChange (bounceRate bd) (baselineBounceRate bd),
                       cm_correlation = ''load_time_up_bounce_rate_up''\<rparr>]
                else [])
      else [])"

definition analyzeCorrelations ::
  "database \<Rightarrow> int \<Rightarrow> anomalyDetectionResult list \<Rightarrow> correlationResult list" where
  "analyzeCorrelations db tz anomalies =
     foldl (\<lambda>correlations anomaly.
              (let correlated = trafficCorrelation db tz anomaly @ loadTimeCorrelation db tz anomaly
               in if length correlated > 0
                  then correlations
                       @ [\<lparr>primaryAnomaly = anomaly, correlatedMetrics = correlated\<rparr>]
                  else correlations))
       [] anomalies"

section \<open>Insights\<close>

text \<open>
  \<open>BusinessInsight\<close>. \<open>detectedAt\<close> is \<open>anomaly.timestamp.toISOString()\<close>, a one-to-one
  rendering of the epoch value that \<open>new Date(insight.detectedAt)\<close> reads back; the record
  holds the epoch value. \<open>impactScore\<close> is the result of \<open>Math.round\<close>, an integer. The
  fields \<open>change\<close>, \<open>businessInsight\<close>, \<open>suggestedAction\<close> and \<open>context\<close> are display
  texts put together with \<open>toFixed\<close>; deduplication, scoring and ranking do not read them,
  and the record leaves them out. The \<open>correlation\<close> argument of the generators enters
  only those texts.
\<close>

record businessInsight =
  insightType :: string
  insightMetric :: string
  insightPage :: string
  impactScore :: int
  detectedAt :: int

definition generateTrafficInsight :: "anomalyDetectionResult \<Rightarrow> businessInsight" where
  "generateTrafficInsight anomaly =
     \<lparr>insightType = (if percentageChange anomaly > 0 then ''Traffic Surge''
                      else ''Traffic Drop''),
      insightMetric = ''PageViews'', insightPage = page anomaly, impactScore = 0,
      detectedAt = timestamp anomaly\<rparr>"

definition generatePerformanceInsight :: "anomalyDetectionResult \<Rightarrow> businessInsight" where
  "generatePerformanceInsight anomaly =
     \<lparr>insightType = ''Performance Issue'', insightMetric = ''Load Time'',
      insightPage = page anomaly, impactScore = 0, detectedAt = timestamp anomaly\<rparr>"

definition generateEngagementInsight :: "anomalyDetectionResult \<Rightarrow> businessInsight" where
  "generateEngagementInsight anomaly =
     \<lparr>insightType = ''Engagement Drop'', insightMetric = ''Session Duration'',
      insightPage = page anomaly, impactScore = 0, detectedAt = timestamp anomaly\<rparr>"

definition generateConversionInsight :: "anomalyDetectionResult \<Rightarrow> businessInsight" where
  "generateConversionInsight anomaly =
     \<lparr>insightType = ''Conversion Drop'', insightMetric = ''Conversion Rate'',
      insightPage = page anomaly, impactScore = 0, detectedAt = timestamp anomaly\<rparr>"

definition generateBounceRateInsight :: "anomalyDetectionResult \<Rightarrow> businessInsight" where
  "generateBounceRateInsight anomaly =
     \<lparr>insightType = ''Engagement Drop'', insightMetric = ''Bounce Rate'',
      insightPage = page anomaly, impactScore = 0, detectedAt = timestamp anomaly\<rparr>"

definition generateErrorRateInsight :: "anomalyDetectionResult \<Rightarrow> businessInsight" where
  "generateErrorRateInsight anomaly =
     \<lparr>insightType = ''Performance Issue'', insightMetric = ''Error Rate'',
      insightPage = page anomaly, impactScore = 0, detectedAt = timestamp anomaly\<rparr>"

definition generateInsightForAnomaly ::
  "anomalyDetectionResult \<Rightarrow> correlationResult list \<Rightarrow> businessInsight option" where
  "generateInsightForAnomaly anomaly correlations =
     (if metricType anomaly = ''Traffic'' \<and> metric anomaly = ''PageViews''
      then Some (generateTrafficInsight anomaly)
      else if metricType anomaly = ''Performance'' \<and> metric anomaly = ''Load Time''
      then Some (generatePerformanceInsight anomaly)
      else if metricType anomaly = ''UserActions'' \<and> metric anomaly = ''Session Duration''
      then Some (generateEngagementInsight anomaly)
      else if metricType anomaly = ''Conversion'' \<and> metric anomaly = ''Conversion Rate''
      then Some (generateConversionInsight anomaly)
      else if metricType anomaly = ''Engagement'' \<and> metric anomaly = ''Bounce Rate''
      then Some (generateBounceRateInsight anomaly)
      else if metricType anomaly = ''Performance'' \<and> metric anomaly = ''Error Rate''
      then Some (generateErrorRateInsight anomaly)
      else None)"

section \<open>Impact score\<close>

text \<open>
  \<open>calculateImpactScore\<close>, with the clock reading \<open>now\<close> of \<open>new Date()\<close> as an argument. The
  weighted sum is evaluated left to right, each product and sum rounded to a double.
  \<open>Math.round\<close> rounds to the nearest integer, a half upwards, as \<^const>\<open>round\<close> does.
\<close>

definition criticalityOf :: "string \<Rightarrow> real" where
  "criticalityOf ty =
     (if stringIncludes ty ''Conversion'' \<or> stringIncludes ty ''Error'' then 90
      else if stringIncludes ty ''Performance'' \<or> stringIncludes ty ''Engagement'' then 70
      else if stringIncludes ty ''Traffic'' then 60
      else 50)"

definition calculateImpactScore ::
  "int \<Rightarrow> businessInsight \<Rightarrow> anomalyDetectionResult list \<Rightarrow> int" where
  "calculateImpactScore now insight allAnomalies =
     (case find (\<lambda>a. page a = insightPage insight \<and> timestamp a = detectedAt insight)
             allAnomalies of
        None \<Rightarrow> 50
      | Some anomaly \<Rightarrow>
          (let magnitudeScore = min (fdiv \<bar>percentageChange anomaly\<bar> 5) 100;
               magnitudeWeight = rnd 0.3;
               criticalityScore = criticalityOf (insightType insight);
               criticalityWeight = rnd 0.4;
               hoursAgo = fdiv (fsub (real_of_int now) (real_of_int (detectedAt insight)))
                            (1000 * 60 * 60);
               recencyScore = max 0 (fsub 100 (fmul hoursAgo 10));
               recencyWeight = rnd 0.3;
               score = fadd (fadd (fmul magnitudeScore magnitudeWeight)
                                  (fmul criticalityScore criticalityWeight))
                            (fmul recencyScore recencyWeight)
           in round score))"

section \<open>Deduplication\<close>

text \<open>
  The key is the template string \<open>`${page}-${metric}-${timestamp.getTime()}`\<close>; the epoch
  value is printed in decimal, with a leading minus sign below zero.
\<close>

definition digitChar :: "nat \<Rightarrow> char" where
  "digitChar d = ''0123456789'' ! d"

fun showNat :: "nat \<Rightarrow> string" where
  "showNat n = (if n < 10 then [digitChar n] else showNat (n div 10) @ [digitChar (n mod 10)])"

definition showInt :: "int \<Rightarrow> string" where
  "showInt i = (if i < 0 then ''-'' @ showNat (nat (- i)) else showNat (nat i))"

definition anomalyKey :: "anomalyDetectionResult \<Rightarrow> string" where
  "anomalyKey anomaly = page anomaly @ ''-'' @ metric anomaly @ ''-'' @ showInt (timestamp anomaly)"

definition deduplicateAnomalies :: "anomalyDetectionResult list \<Rightarrow> anomalyDetectionResult list" where
  "deduplicateAnomalies anomalies =
     snd (foldl (\<lambda>(seen, unique) anomaly.
                   (let key = anomalyKey anomaly
                    in if key \<notin> seen then (insert key seen, unique @ [anomaly])
                       else (seen, unique)))
            ({}, []) anomalies)"

section \<open>Insight generation and the response\<close>

text \<open>
  One request reads the wall clock several times: once in each detection pass, once for
  each insight that is scored, once for the response.
\<close>

record clock =
  atDetection :: int
  atGranular :: int
  atScoring :: "nat \<Rightarrow> int"
  atResponse :: int

definition collectInsights ::
  "anomalyDetectionResult list \<Rightarrow> correlationResult list \<Rightarrow> businessInsight list" where
  "collectInsights uniqueAnomalies correlations =
     foldl (\<lambda>insights anomaly.
              case generateInsightForAnomaly anomaly correlations of
                Some insight \<Rightarrow> insights @ [insight]
              | None \<Rightarrow> insights)
       [] uniqueAnomalies"

definition scoreInsights ::
  "clock \<Rightarrow> anomalyDetectionResult list \<Rightarrow> businessInsight list \<Rightarrow> businessInsight list" where
  "scoreInsights clk uniqueAnomalies insights =
     map (\<lambda>(k, insight).
            insight\<lparr>impactScore := calculateImpactScore (atScoring clk k) insight uniqueAnomalies\<rparr>)
       (enumerate 0 insights)"

text \<open>
  \<open>.sort((a, b) => b.impactScore - a.impactScore)\<close>: a stable sort, larger scores first.
\<close>

definition sortByImpact :: "businessInsight list \<Rightarrow> businessInsight list" where
  "sortByImpact xs = sort_key (\<lambda>i. - impactScore i) xs"

definition uniqueAnomaliesOf :: "database \<Rightarrow> clock \<Rightarrow> anomalyDetectionResult list" where
  "uniqueAnomaliesOf db clk =
     (let aggregatedAnomalies = detectAnomalies db (atDetection clk);
          granularAnomalies = detectGranularAnomalies db (atGranular clk);
          allAnomalies = aggregatedAnomalies @ granularAnomalies
      in deduplicateAnomalies allAnomalies)"

definition scoredInsightsOf :: "database \<Rightarrow> int \<Rightarrow> clock \<Rightarrow> businessInsight list" where
  "scoredInsightsOf db tz clk =
     (let uniqueAnomalies = uniqueAnomaliesOf db clk;
          correlations = analyzeCorrelations db tz uniqueAnomalies;
          insights = collectInsights uniqueAnomalies correlations
      in sortByImpact (scoreInsights clk uniqueAnomalies insights))"

definition generateBusinessInsights :: "database \<Rightarrow> int \<Rightarrow> clock \<Rightarrow> businessInsight list" where
  "generateBusinessInsights db tz clk = take 5 (scoredInsightsOf db tz clk)"

text \<open>
  The controller. \<open>storeInsights\<close> writes one row for each insight through
  \<open>prisma.businessInsight.create\<close>, which may throw; \<open>create\<close> is that write on a store
  \<open>'s\<close>, \<open>None\<close> when it throws. The controller catches the exception and only logs it.
\<close>

record storedInsight =
  si_metricType :: string
  si_page :: string
  si_impactScore :: int
  si_timestamp :: int

fun storeInsights ::
  "('s \<Rightarrow> storedInsight \<Rightarrow> 's option) \<Rightarrow> 's \<Rightarrow> businessInsight list \<Rightarrow> 's \<times> bool" where
  "storeInsights create s [] = (s, True)"
| "storeInsights create s (insight # rest) =
     (case create s \<lparr>si_metricType = insightType insight, si_page = insightPage insight,
                      si_impactScore = impactScore insight,
                      si_timestamp = detectedAt insight\<rparr> of
        None \<Rightarrow> (s, False)
      | Some s' \<Rightarrow> storeInsights create s' rest)"

record insightsResponse =
  success :: bool
  responseTimestamp :: int
  cachedUntil :: int
  insights :: "businessInsight list"

definition getBusinessInsights ::
  "('s \<Rightarrow> storedInsight \<Rightarrow> 's option) \<Rightarrow> 's \<Rightarrow> database \<Rightarrow> int \<Rightarrow> clock
     \<Rightarrow> insightsResponse \<times> 's" where
  "getBusinessInsights create s db tz clk =
     (let found = generateBusinessInsights db tz clk;
          s' = (if length found > 0 then fst (storeInsights create s found) else s);
          now = atResponse clk;
          until = now + 15 * 60 * 1000
      in (\<lparr>success = True, responseTimestamp = now, cachedUntil = until, insights = found\<rparr>,
          s'))"

section \<open>Deduplication in the words of the specification\<close>

text \<open>
  The specification keys anomalies by the triple (page, metric, timestamp epoch) and lets
  the first occurrence win. \<open>firstOccurrencesBy k\<close> keeps an element exactly when no earlier
  element has the same key \<open>k\<close>; \<open>anomalyTriple\<close> is the specification's key. It is compared
  below with \<open>deduplicateAnomalies\<close>, whose key is the joined string. \<open>hyphenFree\<close> holds of
  the six metric labels the detectors write.
\<close>

fun firstOccurrencesBy :: "('a \<Rightarrow> 'k) \<Rightarrow> 'a list \<Rightarrow> 'a list" where
  "firstOccurrencesBy k [] = []"
| "firstOccurrencesBy k (x # xs) = x # filter (\<lambda>y. k y \<noteq> k x) (firstOccurrencesBy k xs)"

definition anomalyTriple :: "anomalyDetectionResult \<Rightarrow> string \<times> string \<times> int" where
  "anomalyTriple a = (page a, metric a, timestamp a)"

definition hyphenFree :: "string \<Rightarrow> bool" where
  "hyphenFree s = (s \<noteq> [] \<and> CHR ''-'' \<notin> set s)"

definition trackedMetricLabels :: "string list" where
  "trackedMetricLabels =
     [''PageViews'', ''Session Duration'', ''Bounce Rate'', ''Conversion Rate'', ''Load Time'',
      ''Error Rate'']"

section \<open>Correlation windows in the words of the specification\<close>








section \<open>Example repositories\<close>

definition pvRow :: "int \<Rightarrow> string \<Rightarrow> string \<Rightarrow> int \<Rightarrow> pageViewsRow" where
  "pvRow t p ref n = \<lparr>pv_timestamp = t, pv_page = p, pv_pageCategory = ''Beach'', pv_viewCount = n,
      pv_referrer = ref, pv_deviceType = ''Mobile'', pv_region = ''South India''\<rparr>"

definition pfRow :: "int \<Rightarrow> string \<Rightarrow> real \<Rightarrow> performanceRow" where
  "pfRow t p v = \<lparr>pf_timestamp = t, pf_page = p, pf_pageCategory = ''Beach'', pf_avgLoadTime = v,
      pf_errorRate = 0, pf_deviceType = ''Mobile'', pf_region = ''South India''\<rparr>"

definition sampleDb :: database where
  "sampleDb = \<lparr>pageViewsHourly = [pvRow 3600000 ''/goa'' ''Google'' 1, pvRow 7200000 ''/goa'' ''Google'' 3,
                                   pvRow 90000000 ''/goa'' ''Google'' 10,
                                   pvRow 3600000 ''/checkout'' ''Google'' 5, pvRow 7200000 ''/checkout'' ''Google'' 5,
                                   pvRow 90000000 ''/checkout'' ''Google'' 6],
               userActionsHourly = [],
               performanceHourly = [pfRow 3600000 ''/goa'' 1, pfRow 7200000 ''/goa'' 3,
                                    pfRow 90000000 ''/goa'' 10,
                                    pfRow 3600000 ''/checkout'' 5, pfRow 7200000 ''/checkout'' 5,
                                    pfRow 90000000 ''/checkout'' 6]\<rparr>"

text \<open>
  A repository with a row stamped one hour after the clock reading \<open>108000000\<close>, and one
  where a rise of one referrer's traffic stays inside the spread of the whole page.
\<close>

definition futureDb :: database where
  "futureDb = \<lparr>pageViewsHourly = [pvRow 3600000 ''/goa'' ''Google'' 1,
                                   pvRow 7200000 ''/goa'' ''Google'' 3,
                                   pvRow 111600000 ''/goa'' ''Google'' 10],
               userActionsHourly = [], performanceHourly = []\<rparr>"

definition granularDb :: database where
  "granularDb = \<lparr>pageViewsHourly = [pvRow 3600000 ''/coorg'' ''Instagram'' 1,
                                     pvRow 7200000 ''/coorg'' ''Instagram'' 1,
                                     pvRow 3600000 ''/coorg'' ''Google'' 9,
                                     pvRow 7200000 ''/coorg'' ''Google'' 9,
                                     pvRow 90000000 ''/coorg'' ''Instagram'' 3],
                 userActionsHourly = [], performanceHourly = []\<rparr>"

text \<open>
  A traffic anomaly of \<open>440\<close> views against a baseline mean of \<open>100\<close>, and the clock of a
  request that reads \<open>108000000\<close> every time.
\<close>

definition surgeAnomaly :: anomalyDetectionResult where
  "surgeAnomaly = trafficAnomaly 100 10 (pvRow 90000000 ''/coorg'' ''Instagram'' 440)"

definition fixedClock :: clock where
  "fixedClock = \<lparr>atDetection = 108000000, atGranular = 108000000,
                  atScoring = (\<lambda>k. 108000000), atResponse = 108000000\<rparr>"

text \<open>The anomalies that detection finds in \<open>sampleDb\<close> at the clock reading \<open>108000000\<close>.\<close>

definition goaTraffic :: anomalyDetectionResult where
  "goaTraffic = trafficAnomaly 2 1 (pvRow 90000000 ''/goa'' ''Google'' 10)"

definition goaLoadTime :: anomalyDetectionResult where
  "goaLoadTime = metricAnomaly ''Performance'' ''Load Time'' 2 1
                   (PerformanceRow (pfRow 90000000 ''/goa'' 10)) 10"

definition checkoutTraffic :: anomalyDetectionResult where
  "checkoutTraffic = trafficAnomaly 5 0 (pvRow 90000000 ''/checkout'' ''Google'' 6)"

definition checkoutLoadTime :: anomalyDetectionResult where
  "checkoutLoadTime = metricAnomaly ''Performance'' ''Load Time'' 5 0
                        (PerformanceRow (pfRow 90000000 ''/checkout'' 6)) 6"






section \<open>Rounding to a double\<close>

text \<open>
  Facts about \<open>rnd\<close>: the error of one rounding, its sign, its exactness on the integers
  below \<open>2 ^ 53\<close>, and that the difference of two distinct doubles does not round to zero.
\<close>

lemma floorLog2_bounds:
  assumes "0 < x"
  shows "2 powi floorLog2 x \<le> x" and "x < 2 powi (floorLog2 x + 1)"
proof -
  have "2 powi floorLog2 x \<le> x \<and> x < 2 powi (floorLog2 x + 1)"
  proof (cases "1 \<le> x")
    case True
    define n where "n = \<lfloor>x\<rfloor>"
    from True have n: "0 < n" by (simp add: n_def)
    define L where "L = bitlen n - 1"
    from n have L0: "0 \<le> L" by (simp add: L_def bitlen_alt_def)
    from bitlen_bounds [OF n] have b: "2 ^ nat L \<le> n" "n < 2 ^ nat (L + 1)"
      by (simp_all add: L_def)
    from b(1) have "(2 :: real) ^ nat L \<le> of_int n"
      by (metis of_int_le_iff of_int_numeral of_int_power)
    also have "of_int n \<le> x" by (simp add: n_def)
    finally have lo: "2 powi L \<le> x" using L0 by (simp add: power_int_nonneg_exp)
    from b(2) have "n + 1 \<le> 2 ^ nat (L + 1)" by simp
    then have "of_int (n + 1) \<le> (2 :: real) ^ nat (L + 1)"
      by (metis of_int_le_iff of_int_numeral of_int_power)
    moreover have "x < of_int (n + 1)" by (simp add: n_def)
    ultimately have hi: "x < 2 powi (L + 1)" using L0 by (simp add: power_int_nonneg_exp)
    from True have "floorLog2 x = L" by (simp add: floorLog2_def L_def n_def)
    with lo hi show ?thesis by simp
  next
    case False
    with assms have x1: "x < 1" by simp
    define c where "c = \<lceil>1 / x\<rceil>"
    from x1 assms have "1 < 1 / x" by simp
    then have c2: "2 \<le> c" by (simp add: c_def)
    define k where "k = bitlen (c - 1)"
    from c2 have pos: "0 < c - 1" by simp
    then have k1: "1 \<le> k" by (simp add: k_def bitlen_alt_def)
    from bitlen_bounds [OF pos] have b: "2 ^ nat (k - 1) \<le> c - 1" "c - 1 < 2 ^ nat k"
      by (simp_all add: k_def)
    have "1 / x \<le> of_int c" by (simp add: c_def)
    also from b(2) have "c \<le> 2 ^ nat k" by simp
    then have "of_int c \<le> (2 :: real) ^ nat k"
      by (metis of_int_le_iff of_int_numeral of_int_power)
    finally have "1 / x \<le> 2 ^ nat k" .
    with assms have "1 \<le> x * 2 ^ nat k" by (simp add: field_simps)
    then have "1 / 2 ^ nat k \<le> x" by (simp add: field_simps)
    moreover have "(2 :: real) powi (- k) = 1 / 2 ^ nat k"
      using k1 by (simp add: power_int_minus_divide power_int_nonneg_exp)
    ultimately have lo: "2 powi (- k) \<le> x" by simp
    have "of_int (c - 1) < 1 / x" unfolding c_def by linarith
    moreover from b(1) have "(2 :: real) ^ nat (k - 1) \<le> of_int (c - 1)"
      by (metis of_int_le_iff of_int_numeral of_int_power)
    ultimately have "2 ^ nat (k - 1) < 1 / x" by simp
    with assms have "x * 2 ^ nat (k - 1) < 1" by (simp add: field_simps)
    then have "x < 1 / 2 ^ nat (k - 1)" by (simp add: field_simps)
    moreover have "(2 :: real) powi (- k + 1) = 1 / 2 ^ nat (k - 1)"
    proof -
      have "- k + 1 = - (k - 1)" by simp
      then show ?thesis
        using k1 by (simp only: power_int_minus_divide) (simp add: power_int_nonneg_exp)
    qed
    ultimately have hi: "x < 2 powi (- k + 1)" by simp
    from False have "floorLog2 x = - k" by (simp add: floorLog2_def k_def c_def)
    with lo hi show ?thesis by simp
  qed
  then show "2 powi floorLog2 x \<le> x" and "x < 2 powi (floorLog2 x + 1)" by simp_all
qed

lemma roundHalfEven_close: "\<bar>of_int (roundHalfEven q) - q\<bar> \<le> 1 / 2"
  unfolding roundHalfEven_def Let_def by (auto simp: abs_le_iff)


lemma roundHalfEven_nonneg: "0 \<le> q \<Longrightarrow> 0 \<le> roundHalfEven q"
  unfolding roundHalfEven_def Let_def by auto

lemma roundHalfEven_nonpos: "q \<le> 0 \<Longrightarrow> roundHalfEven q \<le> 0"
  unfolding roundHalfEven_def Let_def by (auto simp: not_less)




lemma ulpExponent_le:
  assumes "x \<noteq> 0"
  shows "2 powi ulpExponent x \<le> max (\<bar>x\<bar> / 2 ^ 52) (2 powi (- 1074))"
proof -
  from assms have pos: "0 < \<bar>x\<bar>" by simp
  have "2 powi (floorLog2 \<bar>x\<bar> - 52) = 2 powi floorLog2 \<bar>x\<bar> / (2 :: real) ^ 52"
    by (simp add: power_int_diff)
  also have "\<dots> \<le> \<bar>x\<bar> / 2 ^ 52"
    using floorLog2_bounds(1) [OF pos] by (simp add: divide_right_mono)
  finally show ?thesis
    unfolding ulpExponent_def by (auto simp: max_def)
qed

lemma rnd_0 [simp]: "rnd 0 = 0"
  by (simp add: rnd_def)

lemma rnd_error:
  "\<bar>rnd x - x\<bar> \<le> \<bar>x\<bar> / 2 ^ 53 + 2 powi (- 1075)"
proof (cases "x = 0")
  case True
  then show ?thesis by simp
next
  case False
  define e where "e = ulpExponent x"
  define q where "q = x / 2 powi e"
  have p: "(0 :: real) < 2 powi e" by simp
  have xq: "q * 2 powi e = x" by (simp add: q_def)
  have r: "rnd x = of_int (roundHalfEven q) * 2 powi e"
    using False by (simp add: rnd_def Let_def e_def q_def)
  have "rnd x - x = rnd x - q * 2 powi e" by (simp only: xq)
  also have "\<dots> = (of_int (roundHalfEven q) - q) * 2 powi e"
    by (simp add: r algebra_simps)
  finally have "\<bar>rnd x - x\<bar> = \<bar>of_int (roundHalfEven q) - q\<bar> * 2 powi e"
    by (simp add: abs_mult)
  also have "\<dots> \<le> 1 / 2 * 2 powi e"
    using roundHalfEven_close [of q] p by (intro mult_right_mono) simp_all
  also have "\<dots> \<le> 1 / 2 * max (\<bar>x\<bar> / 2 ^ 52) (2 powi (- 1074))"
    using ulpExponent_le [OF False] by (simp add: e_def)
  also have "\<dots> \<le> \<bar>x\<bar> / 2 ^ 53 + 2 powi (- 1075)"
  proof -
    have "(2 :: real) powi (- 1075) = 1 / 2 * 2 powi (- 1074)"
      by (simp add: power_int_minus_divide)
    then show ?thesis by (auto simp: max_def)
  qed
  finally show ?thesis .
qed

lemma rnd_nonneg: "0 \<le> x \<Longrightarrow> 0 \<le> rnd x"
  by (simp add: rnd_def Let_def roundHalfEven_nonneg)

lemma rnd_nonpos: "x \<le> 0 \<Longrightarrow> rnd x \<le> 0"
  by (simp add: rnd_def Let_def roundHalfEven_nonpos mult_le_0_iff divide_le_0_iff)







text \<open>
  The integer square root, and \<open>fsqrt\<close> computed with it: the square root rounds as its
  argument compares with the square of the midpoint between two neighbouring doubles.
\<close>

lemma isqrt_bounds:
  "0 \<le> n \<Longrightarrow> 0 \<le> isqrt n \<and> isqrt n * isqrt n \<le> n \<and> n < (isqrt n + 1) * (isqrt n + 1)"
proof (induction n rule: isqrt.induct)
  case (1 n)
  show ?case
  proof (cases "n \<le> 0")
    case True
    with "1.prems" show ?thesis by (simp add: isqrt.simps [of 0])
  next
    case False
    define s where "s = isqrt (n div 4)"
    from False have "0 \<le> n div 4" by simp
    with "1.IH" [OF False] have IH: "0 \<le> s" "s * s \<le> n div 4" "n div 4 < (s + 1) * (s + 1)"
      by (simp_all add: s_def)
    from IH(2) have lo: "(2 * s) * (2 * s) \<le> n" by (simp add: algebra_simps)
    from IH(3) have "n div 4 + 1 \<le> (s + 1) * (s + 1)" by simp
    then have "4 * (n div 4) + 4 \<le> 4 * ((s + 1) * (s + 1))" by simp
    moreover have "n < 4 * (n div 4) + 4" by linarith
    ultimately have hi: "n < (2 * s + 2) * (2 * s + 2)" by (simp add: algebra_simps)
    have eq: "isqrt n = (if (2 * s + 1) * (2 * s + 1) \<le> n then 2 * s + 1 else 2 * s)"
      using False by (simp add: isqrt.simps [of n] s_def Let_def)
    show ?thesis
    proof (cases "(2 * s + 1) * (2 * s + 1) \<le> n")
      case True
      with eq hi IH(1) show ?thesis by (simp add: algebra_simps)
    next
      case False
      with eq lo IH(1) show ?thesis by (simp add: algebra_simps)
    qed
  qed
qed

lemma floor_sqrt_isqrt:
  assumes "0 \<le> t"
  shows "\<lfloor>sqrt t\<rfloor> = isqrt \<lfloor>t\<rfloor>"
proof -
  define n where "n = \<lfloor>t\<rfloor>"
  define s where "s = isqrt n"
  from assms have n0: "0 \<le> n" by (simp add: n_def)
  have n: "of_int n \<le> t" "t < of_int n + 1"
    unfolding n_def by linarith+
  from isqrt_bounds [OF n0] have b: "0 \<le> s" "s * s \<le> n" "n < (s + 1) * (s + 1)"
    by (simp_all add: s_def)
  from b(2) have "(of_int (s * s) :: real) \<le> of_int n" by (simp only: of_int_le_iff)
  with n(1) have "(of_int s)\<^sup>2 \<le> t" by (simp add: power2_eq_square)
  then have lo: "of_int s \<le> sqrt t" by (rule real_le_rsqrt)
  from b(3) have "n + 1 \<le> (s + 1) * (s + 1)" by simp
  then have "(of_int (n + 1) :: real) \<le> of_int ((s + 1) * (s + 1))" by (simp only: of_int_le_iff)
  with n(2) have "t < (of_int s + 1)\<^sup>2" by (simp add: power2_eq_square algebra_simps)
  then have hi: "sqrt t < of_int s + 1"
    using b(1) by (intro real_less_lsqrt) simp_all
  from lo hi have "\<lfloor>sqrt t\<rfloor> = s"
    by (intro floor_unique) simp_all
  then show ?thesis by (simp add: s_def n_def)
qed

lemma sq_less_iff: "0 \<le> a \<Longrightarrow> 0 \<le> b \<Longrightarrow> (a < b) = (a\<^sup>2 < b\<^sup>2)" for a b :: real
  by (auto intro: power_strict_mono dest: power2_less_imp_less)

lemma floorLog2_unique:
  assumes "2 powi L \<le> y" "y < 2 powi (L + 1)"
  shows "floorLog2 y = L"
proof -
  have pos: "0 < y" using assms(1) by (rule less_le_trans [rotated]) simp
  note b = floorLog2_bounds [OF pos]
  from assms(1) b(2) have "(2 :: real) powi L < 2 powi (floorLog2 y + 1)" by simp
  then have "L < floorLog2 y + 1"
    using power_int_increasing [of "floorLog2 y + 1" L "2 :: real"]
    by (cases "L < floorLog2 y + 1") simp_all
  moreover from assms(2) b(1) have "(2 :: real) powi floorLog2 y < 2 powi (L + 1)" by simp
  then have "floorLog2 y < L + 1"
    using power_int_increasing [of "L + 1" "floorLog2 y" "2 :: real"]
    by (cases "floorLog2 y < L + 1") simp_all
  ultimately show ?thesis by simp
qed

lemma sqrt_powi_even: "sqrt (2 powi (2 * k)) = 2 powi k"
proof -
  have "(2 :: real) powi (2 * k) = (2 powi k)\<^sup>2"
    by (simp add: power2_eq_square power_int_add [symmetric])
  then show ?thesis by simp
qed

lemma floorLog2_sqrt:
  assumes "0 < x"
  shows "floorLog2 (sqrt x) = floorLog2 x div 2"
proof (rule floorLog2_unique)
  define L where "L = floorLog2 x"
  define K where "K = L div 2"
  note b = floorLog2_bounds [OF assms, folded L_def]
  have k: "2 * K \<le> L" "L + 1 \<le> 2 * (K + 1)" by (simp_all add: K_def)
  have "(2 :: real) powi (2 * K) \<le> 2 powi L"
    using k(1) by (intro power_int_increasing) simp_all
  with b(1) have "2 powi (2 * K) \<le> x" by simp
  then have "sqrt (2 powi (2 * K)) \<le> sqrt x" by simp
  then show "2 powi (floorLog2 x div 2) \<le> sqrt x"
    by (simp only: sqrt_powi_even K_def L_def)
  have "(2 :: real) powi (L + 1) \<le> 2 powi (2 * (K + 1))"
    using k(2) by (intro power_int_increasing) simp_all
  with b(2) have "x < 2 powi (2 * (K + 1))" by simp
  then have "sqrt x < sqrt (2 powi (2 * (K + 1)))" by simp
  then show "sqrt x < 2 powi (floorLog2 x div 2 + 1)"
    by (simp only: sqrt_powi_even K_def L_def)
qed

lemma fsqrt_code [code]:
  "fsqrt x =
     (if x \<le> 0 then 0
      else (let e = max (floorLog2 x div 2 - 52) (- 1074);
                t = x / 2 powi (2 * e);
                f = isqrt \<lfloor>t\<rfloor>;
                h = (of_int f + 1 / 2)\<^sup>2;
                m = (if t < h then f else if h < t then f + 1
                     else if even f then f else f + 1)
            in of_int m * 2 powi e))"
proof (cases "x \<le> 0")
  case True
  then show ?thesis by (simp add: fsqrt_def)
next
  case False
  then have pos: "0 < x" by simp
  define y where "y = sqrt x"
  from pos have y: "0 < y" "y \<noteq> 0" by (simp_all add: y_def)
  define e where "e = max (floorLog2 x div 2 - 52) (- 1074)"
  have ue: "ulpExponent y = e"
    using y by (simp add: ulpExponent_def e_def y_def floorLog2_sqrt [OF pos])
  define t where "t = x / 2 powi (2 * e)"
  define q where "q = y / 2 powi e"
  have t0: "0 \<le> t" using pos by (simp add: t_def)
  have q0: "0 \<le> q" using y by (simp add: q_def)
  have qt: "q = sqrt t"
    by (simp add: q_def t_def y_def real_sqrt_divide sqrt_powi_even)
  then have q2: "q\<^sup>2 = t" using t0 by simp
  define f where "f = isqrt \<lfloor>t\<rfloor>"
  have fl: "\<lfloor>q\<rfloor> = f" unfolding qt f_def by (rule floor_sqrt_isqrt [OF t0])
  define h where "h = (of_int f + 1 / 2 :: real)\<^sup>2"
  have "0 \<le> f" using isqrt_bounds [of "\<lfloor>t\<rfloor>"] t0 by (simp add: f_def)
  then have f0: "(0 :: real) \<le> of_int f + 1 / 2" by simp
  have lt: "(q - of_int f < 1 / 2) = (t < h)"
  proof -
    have "(q - of_int f < 1 / 2) = (q < of_int f + 1 / 2)" by auto
    also have "\<dots> = (q\<^sup>2 < (of_int f + 1 / 2)\<^sup>2)"
      using q0 f0 by (rule sq_less_iff)
    finally show ?thesis by (simp add: q2 h_def)
  qed
  have gt: "(q - of_int f > 1 / 2) = (h < t)"
  proof -
    have "(q - of_int f > 1 / 2) = (of_int f + 1 / 2 < q)" by auto
    also have "\<dots> = ((of_int f + 1 / 2)\<^sup>2 < q\<^sup>2)"
      using f0 q0 by (rule sq_less_iff)
    finally show ?thesis by (simp add: q2 h_def)
  qed
  have "roundHalfEven q = (if t < h then f else if h < t then f + 1
                     else if even f then f else f + 1)"
    unfolding roundHalfEven_def Let_def fl lt gt by simp
  then have "rnd y = of_int (if t < h then f else if h < t then f + 1
                     else if even f then f else f + 1) * 2 powi e"
    using y(2) by (simp add: rnd_def Let_def ue q_def)
  moreover have "fsqrt x = rnd y" using False by (simp add: fsqrt_def y_def)
  ultimately have "fsqrt x = of_int (if t < h then f else if h < t then f + 1
                     else if even f then f else f + 1) * 2 powi e" by simp
  then show ?thesis
    unfolding Let_def h_def f_def t_def e_def by (simp only: False if_False)
qed

section \<open>Loops as maps and filters\<close>

lemma foldl_push:
  "foldl (\<lambda>acc x. if P x then acc @ [f x] else acc) a xs = a @ map f (filter P xs)"
  by (induction xs arbitrary: a) auto

lemma foldl_append_concat:
  "foldl (\<lambda>acc x. acc @ g x) a xs = a @ concat (map g xs)"
  by (induction xs arbitrary: a) auto

lemma trafficLoop_eq:
  "trafficLoop m s rows =
     map (trafficAnomaly m s) (filter (\<lambda>r. isAnomalous m s (real_of_int (pv_viewCount r))) rows)"
  unfolding trafficLoop_def using foldl_push [of _ _ "[]"] by simp

lemma metricLoop_acc:
  "foldl (\<lambda>anomalies recent.
              case ex recent of
                None \<Rightarrow> anomalies
              | Some v \<Rightarrow>
                  if isAnomalous m s v
                  then anomalies @ [metricAnomaly mType mName m s recent v]
                  else anomalies) a rows
   = a @ List.map_filter (\<lambda>r. case ex r of None \<Rightarrow> None
          | Some v \<Rightarrow> if isAnomalous m s v then Some (metricAnomaly mType mName m s r v) else None) rows"
  by (induction rows arbitrary: a) (auto simp: List.map_filter_simps split: option.splits)

lemma metricLoop_eq:
  "metricLoop mType mName ex m s rows =
     List.map_filter (\<lambda>r. case ex r of None \<Rightarrow> None
          | Some v \<Rightarrow> if isAnomalous m s v then Some (metricAnomaly mType mName m s r v) else None) rows"
  unfolding metricLoop_def by (simp add: metricLoop_acc)

lemma set_map_filter_conv:
  "set (List.map_filter g xs) = {y. \<exists>x \<in> set xs. g x = Some y}"
  by (induction xs) (auto simp: List.map_filter_simps split: option.splits)

lemma set_metricLoop:
  "set (metricLoop mType mName ex m s rows) =
     {metricAnomaly mType mName m s r v | r v. r \<in> set rows \<and> ex r = Some v \<and> isAnomalous m s v}"
  unfolding metricLoop_eq set_map_filter_conv
  by (auto split: option.splits if_splits)

lemma trafficAnomaly_currentValue [simp]:
  "currentValue (trafficAnomaly m s r) = real_of_int (pv_viewCount r)"
  "baselineMean (trafficAnomaly m s r) = m"
  "baselineStdDev (trafficAnomaly m s r) = s"
  "percentageChange (trafficAnomaly m s r)
     = fmul (fdiv (fsub (real_of_int (pv_viewCount r)) m) m) 100"
  "timestamp (trafficAnomaly m s r) = pv_timestamp r"
  "page (trafficAnomaly m s r) = pv_page r"
  "metric (trafficAnomaly m s r) = ''PageViews''"
  "metricType (trafficAnomaly m s r) = ''Traffic''"
  by (simp_all add: trafficAnomaly_def)

lemma metricAnomaly_fields [simp]:
  "currentValue (metricAnomaly mType mName m s r v) = v"
  "baselineMean (metricAnomaly mType mName m s r v) = m"
  "baselineStdDev (metricAnomaly mType mName m s r v) = s"
  "percentageChange (metricAnomaly mType mName m s r v) = fmul (fdiv (fsub v m) m) 100"
  "timestamp (metricAnomaly mType mName m s r v) = row_timestamp r"
  "page (metricAnomaly mType mName m s r v) = row_page r"
  "metric (metricAnomaly mType mName m s r v) = mName"
  "metricType (metricAnomaly mType mName m s r v) = mType"
  by (simp_all add: metricAnomaly_def)


lemma set_trafficLoop:
  "set (trafficLoop m s rows) =
     {trafficAnomaly m s r | r. r \<in> set rows \<and> isAnomalous m s (real_of_int (pv_viewCount r))}"
  by (auto simp: trafficLoop_eq)



lemma detectTrafficAnomalies_nonempty_baseline:
  assumes "findManyPageViews db (pageWhere p bStart (Some bEnd)) \<noteq> []"
  shows "detectTrafficAnomalies db p rStart bStart bEnd =
     (let B = map (\<lambda>d. real_of_int (pv_viewCount d))
                (findManyPageViews db (pageWhere p bStart (Some bEnd)));
          M = calculateMean B
      in trafficLoop M (calculateStdDev B M) (findManyPageViews db (pageWhere p rStart None)))"
  using assms by (simp add: detectTrafficAnomalies_def Let_def)








lemmas sample_defs = sampleDb_def pvRow_def pfRow_def findManyPageViews_def findManyPerformance_def
  findManyUserActions_def findManyMetric_def isUserActionsField_def
  pageWhere_def inTimestampFilter_def columnMatches_def

section \<open>The passes as concatenations over the pages\<close>

lemma comboWhere_page_only:
  "comboWhere \<lparr>c_page = p, c_deviceType = None, c_referrer = None, c_region = None\<rparr> from until
     = pageWhere p from until"
  by (simp add: comboWhere_def pageWhere_def whenTruthy_def)

lemma detectTrafficAnomaliesGranular_page_only:
  "detectTrafficAnomaliesGranular db
       \<lparr>c_page = p, c_deviceType = None, c_referrer = None, c_region = None\<rparr> rStart bStart bEnd
     = detectTrafficAnomalies db p rStart bStart bEnd"
  by (simp add: detectTrafficAnomaliesGranular_def detectTrafficAnomalies_def comboWhere_page_only Let_def)

lemma detectAnomalies_concat:
  "detectAnomalies db now =
     concat (map (\<lambda>p. detectTrafficAnomalies db p (now - sixHours) (now - thirtyHours) (now - sixHours)
                      @ detectEngagementAnomalies db p (now - sixHours) (now - thirtyHours) (now - sixHours)
                      @ detectPerformanceAnomalies db p (now - sixHours) (now - thirtyHours) (now - sixHours))
               (getUniquePages db))"
  unfolding detectAnomalies_def Let_def
  using foldl_append_concat [of _ "[]"] by simp

lemma detectGranularAnomalies_concat:
  "detectGranularAnomalies db now =
     concat (map (\<lambda>p. detectTrafficAnomalies db p (now - sixHours) (now - thirtyHours) (now - sixHours))
               (getUniquePages db))"
proof -
  have "detectGranularAnomalies db now =
     concat (map (\<lambda>combo. detectTrafficAnomaliesGranular db combo (now - sixHours) (now - thirtyHours) (now - sixHours))
               (getUniqueCombinations db))"
    unfolding detectGranularAnomalies_def Let_def detectEngagementAnomaliesGranular_def
      detectPerformanceAnomaliesGranular_def
    using foldl_append_concat [of _ "[]"] by simp
  then show ?thesis
    by (simp add: getUniqueCombinations_def comp_def detectTrafficAnomaliesGranular_page_only)
qed

lemma detectTrafficAnomalies_from_recent:
  assumes "a \<in> set (detectTrafficAnomalies db p rStart bStart bEnd)"
  shows "\<exists>r \<in> set (findManyPageViews db (pageWhere p rStart None)).
           timestamp a = pv_timestamp r \<and> page a = pv_page r
           \<and> metricType a = ''Traffic'' \<and> metric a = ''PageViews''"
proof (cases "findManyPageViews db (pageWhere p bStart (Some bEnd)) = []")
  case True
  with assms show ?thesis by (simp add: detectTrafficAnomalies_def)
next
  case False
  from assms show ?thesis
    unfolding detectTrafficAnomalies_nonempty_baseline [OF False] Let_def set_trafficLoop
    by auto
qed

lemma detectMetricAnomaly_from_recent:
  assumes "a \<in> set (detectMetricAnomaly db p rStart bStart bEnd field mType mName ex)"
  shows "\<exists>r \<in> set (findManyMetric db field (pageWhere p rStart None)).
           timestamp a = row_timestamp r \<and> page a = row_page r
           \<and> metricType a = mType \<and> metric a = mName"
  using assms unfolding detectMetricAnomaly_def Let_def
  by (auto simp: set_metricLoop split: if_splits option.splits)

lemma findManyPageViews_pageWhere:
  "set (findManyPageViews db (pageWhere p from None))
     = {r \<in> set (pageViewsHourly db). pv_page r = p \<and> from \<le> pv_timestamp r}"
  "set (findManyPageViews db (pageWhere p from (Some until)))
     = {r \<in> set (pageViewsHourly db). pv_page r = p \<and> from \<le> pv_timestamp r \<and> pv_timestamp r < until}"
  by (auto simp: findManyPageViews_def pageWhere_def inTimestampFilter_def columnMatches_def)

lemma findManyUserActions_pageWhere:
  "set (findManyUserActions db (pageWhere p from None))
     = {r \<in> set (userActionsHourly db). ua_page r = p \<and> from \<le> ua_timestamp r}"
  "set (findManyUserActions db (pageWhere p from (Some until)))
     = {r \<in> set (userActionsHourly db). ua_page r = p \<and> from \<le> ua_timestamp r \<and> ua_timestamp r < until}"
  by (auto simp: findManyUserActions_def pageWhere_def inTimestampFilter_def columnMatches_def)

lemma findManyPerformance_pageWhere:
  "set (findManyPerformance db (pageWhere p from None))
     = {r \<in> set (performanceHourly db). pf_page r = p \<and> from \<le> pf_timestamp r}"
  "set (findManyPerformance db (pageWhere p from (Some until)))
     = {r \<in> set (performanceHourly db). pf_page r = p \<and> from \<le> pf_timestamp r \<and> pf_timestamp r < until}"
  by (auto simp: findManyPerformance_def pageWhere_def inTimestampFilter_def columnMatches_def)

lemma findManyMetric_recent:
  "set (findManyMetric db field (pageWhere p from None))
     = (if isUserActionsField field
        then UserActionsRow ` {r \<in> set (userActionsHourly db). ua_page r = p \<and> from \<le> ua_timestamp r}
        else PerformanceRow ` {r \<in> set (performanceHourly db). pf_page r = p \<and> from \<le> pf_timestamp r})"
  by (simp add: findManyMetric_def findManyUserActions_pageWhere findManyPerformance_pageWhere)

section \<open>Where detected anomalies come from\<close>

lemma detectAnomalies_from_recent:
  assumes "a \<in> set (detectAnomalies db now)"
  shows "(\<exists>p. \<exists>r \<in> set (findManyPageViews db (pageWhere p (now - sixHours) None)).
            timestamp a = pv_timestamp r)
       \<or> (\<exists>p field. \<exists>r \<in> set (findManyMetric db field (pageWhere p (now - sixHours) None)).
            timestamp a = row_timestamp r)"
proof -
  from assms obtain p where
    "a \<in> set (detectTrafficAnomalies db p (now - sixHours) (now - thirtyHours) (now - sixHours))
     \<or> (\<exists>field mType mName ex.
          a \<in> set (detectMetricAnomaly db p (now - sixHours) (now - thirtyHours) (now - sixHours)
                     field mType mName ex))"
    unfolding detectAnomalies_concat detectEngagementAnomalies_def detectPerformanceAnomalies_def
    by auto blast+
  then show ?thesis
  proof (elim disjE exE)
    assume "a \<in> set (detectTrafficAnomalies db p (now - sixHours) (now - thirtyHours)
                       (now - sixHours))"
    from detectTrafficAnomalies_from_recent [OF this] show ?thesis by blast
  next
    fix field mType mName ex
    assume "a \<in> set (detectMetricAnomaly db p (now - sixHours) (now - thirtyHours)
                       (now - sixHours) field mType mName ex)"
    from detectMetricAnomaly_from_recent [OF this] show ?thesis by blast
  qed
qed

lemma detectGranularAnomalies_from_recent:
  assumes "a \<in> set (detectGranularAnomalies db now)"
  shows "\<exists>p. \<exists>r \<in> set (findManyPageViews db (pageWhere p (now - sixHours) None)).
            timestamp a = pv_timestamp r \<and> metricType a = ''Traffic'' \<and> metric a = ''PageViews''"
  using assms unfolding detectGranularAnomalies_concat
  by (auto dest!: detectTrafficAnomalies_from_recent)

lemma row_timestamp_recent:
  assumes "r \<in> set (findManyMetric db field (pageWhere p from None))"
  shows "from \<le> row_timestamp r
       \<and> ((\<exists>u \<in> set (userActionsHourly db). row_timestamp r = ua_timestamp u)
          \<or> (\<exists>u \<in> set (performanceHourly db). row_timestamp r = pf_timestamp u))"
  using assms unfolding findManyMetric_recent by (auto split: if_splits)

lemma detected_timestamp_bounds:
  assumes "a \<in> set (detectAnomalies db now) \<or> a \<in> set (detectGranularAnomalies db now)"
  shows "now - sixHours \<le> timestamp a
       \<and> ((\<exists>u \<in> set (pageViewsHourly db). timestamp a = pv_timestamp u)
          \<or> (\<exists>u \<in> set (userActionsHourly db). timestamp a = ua_timestamp u)
          \<or> (\<exists>u \<in> set (performanceHourly db). timestamp a = pf_timestamp u))"
proof -
  from assms consider
    (pv) p r where "r \<in> set (findManyPageViews db (pageWhere p (now - sixHours) None))"
        "timestamp a = pv_timestamp r"
  | (any) p field r where "r \<in> set (findManyMetric db field (pageWhere p (now - sixHours) None))"
        "timestamp a = row_timestamp r"
    using detectAnomalies_from_recent [of a db now] detectGranularAnomalies_from_recent [of a db now]
    by blast
  then show ?thesis
  proof cases
    case pv
    then show ?thesis by (auto simp: findManyPageViews_pageWhere)
  next
    case any
    with row_timestamp_recent [OF any(1)] show ?thesis by auto
  qed
qed

section \<open>Bounds of the weighted score\<close>

lemma criticalityOf_cases:
  "criticalityOf ty = 90 \<or> criticalityOf ty = 70 \<or> criticalityOf ty = 60 \<or> criticalityOf ty = 50"
  by (simp add: criticalityOf_def)


text \<open>One rounding raises a bound of at least \<open>1\<close> by less than a thousandth of it.\<close>

lemma rnd_le_scaled:
  assumes "x \<le> b" "1 \<le> b"
  shows "rnd x \<le> b * (1001 / 1000)"
proof (cases "0 \<le> x")
  case False
  then have "rnd x \<le> 0" by (intro rnd_nonpos) simp
  also have "0 \<le> b * (1001 / 1000)" using assms(2) by simp
  finally show ?thesis .
next
  case True
  have "(2 :: real) powi (- 1075) \<le> 2 powi (- 11)"
    by (rule power_int_increasing) simp_all
  also have "(2 :: real) powi (- 11) = 1 / 2048"
    by (simp add: power_int_minus field_simps)
  finally have tiny: "(2 :: real) powi (- 1075) \<le> 1 / 2048" .
  have "x / 2 ^ 53 \<le> x / 2048" using True by (intro divide_left_mono) simp_all
  also have "\<dots> \<le> b / 2048" using assms(1) by simp
  finally have rel: "x / 2 ^ 53 \<le> b / 2048" .
  from rnd_error [of x] True have "rnd x \<le> x + x / 2 ^ 53 + 2 powi (- 1075)"
    by (simp add: abs_le_iff algebra_simps)
  with rel tiny assms show ?thesis by simp
qed

lemma weight_bounds:
  "0 \<le> rnd 0.3" "rnd 0.3 \<le> 301 / 1000" "0 \<le> rnd 0.4" "rnd 0.4 \<le> 401 / 1000"
  by code_simp+

lemma fmul_weight_bound:
  assumes "0 \<le> x" "x \<le> b" "0 \<le> w" "w \<le> u" "1 \<le> b * u"
  shows "0 \<le> fmul x w" "fmul x w \<le> b * u * (1001 / 1000)"
proof -
  show "0 \<le> fmul x w" using assms(1,3) by (simp add: fmul_def rnd_nonneg)
  have "x * w \<le> b * u" using assms(1-4) by (intro mult_mono) simp_all
  then show "fmul x w \<le> b * u * (1001 / 1000)"
    unfolding fmul_def using assms(5) by (rule rnd_le_scaled)
qed

lemma weighted_score_bounds:
  assumes "0 \<le> m" "m \<le> 100" "0 \<le> c" "c \<le> 90" "0 \<le> r" "r \<le> 101"
  shows "0 \<le> fadd (fadd (fmul m (rnd 0.3)) (fmul c (rnd 0.4))) (fmul r (rnd 0.3))"
    and "fadd (fadd (fmul m (rnd 0.3)) (fmul c (rnd 0.4))) (fmul r (rnd 0.3)) \<le> 100"
proof -
  define p1 where "p1 = fmul m (rnd 0.3)"
  define p2 where "p2 = fmul c (rnd 0.4)"
  define p3 where "p3 = fmul r (rnd 0.3)"
  have p1: "0 \<le> p1" "p1 \<le> 31"
    using fmul_weight_bound [OF assms(1,2) weight_bounds(1,2)] by (simp_all add: p1_def)
  have p2: "0 \<le> p2" "p2 \<le> 37"
    using fmul_weight_bound [OF assms(3,4) weight_bounds(3,4)] by (simp_all add: p2_def)
  have p3: "0 \<le> p3" "p3 \<le> 31"
    using fmul_weight_bound [OF assms(5,6) weight_bounds(1,2)] by (simp_all add: p3_def)
  have "p1 + p2 \<le> 68" using p1(2) p2(2) by simp
  then have "rnd (p1 + p2) \<le> 68 * (1001 / 1000)" by (rule rnd_le_scaled) simp
  moreover have "0 \<le> rnd (p1 + p2)" using p1(1) p2(1) by (intro rnd_nonneg) simp
  ultimately have s1: "0 \<le> fadd p1 p2" "fadd p1 p2 \<le> 68 * (1001 / 1000)"
    by (simp_all add: fadd_def)
  have "fadd p1 p2 + p3 \<le> 9907 / 100" using s1(2) p3(2) by simp
  then have "fadd (fadd p1 p2) p3 \<le> 9907 / 100 * (1001 / 1000)"
    unfolding fadd_def [of "fadd p1 p2"] by (rule rnd_le_scaled) simp
  then have hi: "fadd (fadd p1 p2) p3 \<le> 100" by simp
  have lo: "0 \<le> fadd (fadd p1 p2) p3"
    using s1(1) p3(1) by (simp add: fadd_def [of "fadd p1 p2"] rnd_nonneg)
  from lo show "0 \<le> fadd (fadd (fmul m (rnd 0.3)) (fmul c (rnd 0.4))) (fmul r (rnd 0.3))"
    by (simp only: p1_def p2_def p3_def)
  from hi show "fadd (fadd (fmul m (rnd 0.3)) (fmul c (rnd 0.4))) (fmul r (rnd 0.3)) \<le> 100"
    by (simp only: p1_def p2_def p3_def)
qed

lemma recency_bounds:
  assumes "0 \<le> h"
  shows "0 \<le> max 0 (fsub 100 (fmul h 10))" "max 0 (fsub 100 (fmul h 10)) \<le> 101"
proof -
  show "0 \<le> max 0 (fsub 100 (fmul h 10))" by simp
  from assms have "0 \<le> fmul h 10" by (simp add: fmul_def rnd_nonneg)
  then have "100 - fmul h 10 \<le> 100" by simp
  then have "fsub 100 (fmul h 10) \<le> 100 * (1001 / 1000)"
    unfolding fsub_def by (rule rnd_le_scaled) simp
  then show "max 0 (fsub 100 (fmul h 10)) \<le> 101" by simp
qed

section \<open>Sorting and truncation\<close>

lemma sortByImpact_sorted:
  "sorted_wrt (\<lambda>a b. impactScore b \<le> impactScore a) (sortByImpact xs)"
proof -
  have "sorted (map (\<lambda>i. - impactScore i) (sortByImpact xs))"
    by (simp add: sortByImpact_def)
  then show ?thesis by (simp add: sorted_map)
qed

lemma sortByImpact_mset [simp]: "mset (sortByImpact xs) = mset xs"
  by (simp add: sortByImpact_def)

lemma sortByImpact_length [simp]: "length (sortByImpact xs) = length xs"
  by (simp add: sortByImpact_def)

lemma sortByImpact_Nil [simp]: "sortByImpact [] = []"
  by (simp add: sortByImpact_def)

lemma top5_properties:
  fixes scored :: "businessInsight list"
  defines "ranked \<equiv> take 5 (sortByImpact scored)"
  shows "sorted_wrt (\<lambda>a b. impactScore b \<le> impactScore a) ranked"
    and "length ranked \<le> 5"
    and "length ranked \<le> length scored"
    and "length ranked = min 5 (length scored)"
    and "mset ranked \<subseteq># mset scored"
    and "length scored \<le> 5 \<Longrightarrow> mset ranked = mset scored"
    and "scored = [] \<Longrightarrow> ranked = []"
    and "a \<in> set ranked \<Longrightarrow> b \<in> set (drop 5 (sortByImpact scored))
           \<Longrightarrow> impactScore b \<le> impactScore a"
proof -
  show "sorted_wrt (\<lambda>a b. impactScore b \<le> impactScore a) ranked"
    unfolding ranked_def by (rule sorted_wrt_take) (rule sortByImpact_sorted)
  show "length ranked \<le> 5" "length ranked \<le> length scored"
    "length ranked = min 5 (length scored)"
    by (simp_all add: ranked_def)
  have "mset (take 5 (sortByImpact scored)) \<subseteq># mset (sortByImpact scored)"
    by (metis append_take_drop_id mset_append mset_subset_eq_add_left)
  then show "mset ranked \<subseteq># mset scored" by (simp add: ranked_def)
  show "mset ranked = mset scored" if "length scored \<le> 5"
    using that by (simp add: ranked_def)
  show "ranked = []" if "scored = []"
    using that by (simp add: ranked_def)
  show "impactScore b \<le> impactScore a"
    if "a \<in> set ranked" "b \<in> set (drop 5 (sortByImpact scored))"
  proof -
    have "sorted_wrt (\<lambda>a b. impactScore b \<le> impactScore a)
            (take 5 (sortByImpact scored) @ drop 5 (sortByImpact scored))"
      by (simp add: sortByImpact_sorted)
    with that show ?thesis
      unfolding sorted_wrt_append ranked_def by blast
  qed
qed

section \<open>Deduplication and its key\<close>

declare showNat.simps [simp del]

lemma filter_swap: "filter A (filter B l) = filter B (filter A l)"
  by (induction l) simp_all

lemma filter_absorb:
  assumes "\<And>y. A y \<Longrightarrow> B y"
  shows "filter A (filter B l) = filter A l"
  using assms by (induction l) simp_all

lemma filter_both:
  assumes "\<And>y. C y = (A y \<and> B y)"
  shows "filter A (filter B l) = filter C l"
  using assms by (induction l) simp_all

lemma filter_firstOccurrencesBy:
  "filter (\<lambda>y. Q (k y)) (firstOccurrencesBy k xs) = firstOccurrencesBy k (filter (\<lambda>y. Q (k y)) xs)"
proof (induction xs)
  case Nil
  then show ?case by simp
next
  case (Cons x xs)
  show ?case
  proof (cases "Q (k x)")
    case True
    have "filter (\<lambda>y. Q (k y)) (filter (\<lambda>y. k y \<noteq> k x) (firstOccurrencesBy k xs))
        = filter (\<lambda>y. k y \<noteq> k x) (filter (\<lambda>y. Q (k y)) (firstOccurrencesBy k xs))"
      by (rule filter_swap)
    with True Cons.IH show ?thesis by simp
  next
    case False
    have "filter (\<lambda>y. Q (k y)) (filter (\<lambda>y. k y \<noteq> k x) (firstOccurrencesBy k xs))
        = filter (\<lambda>y. Q (k y)) (firstOccurrencesBy k xs)"
      using False by (intro filter_absorb) auto
    with False Cons.IH show ?thesis by simp
  qed
qed

lemma dedup_foldl:
  "foldl (\<lambda>(seen, unique) anomaly.
                   (let key = k anomaly
                    in if key \<notin> seen then (insert key seen, unique @ [anomaly])
                       else (seen, unique)))
            (seen, unique) xs
    = (seen \<union> k ` set xs, unique @ firstOccurrencesBy k (filter (\<lambda>y. k y \<notin> seen) xs))"
proof (induction xs arbitrary: seen unique)
  case Nil
  then show ?case by simp
next
  case (Cons x xs)
  let ?f = "\<lambda>(seen, unique) anomaly.
                   (let key = k anomaly
                    in if key \<notin> seen then (insert key seen, unique @ [anomaly])
                       else (seen, unique))"
  show ?case
  proof (cases "k x \<in> seen")
    case True
    then have U: "seen \<union> k ` set xs = seen \<union> k ` set (x # xs)" by auto
    from True have "foldl ?f (seen, unique) (x # xs) = foldl ?f (seen, unique) xs"
      by simp
    also have "\<dots> = (seen \<union> k ` set xs,
        unique @ firstOccurrencesBy k (filter (\<lambda>y. k y \<notin> seen) xs))"
      by (rule Cons.IH)
    also from True have "filter (\<lambda>y. k y \<notin> seen) xs = filter (\<lambda>y. k y \<notin> seen) (x # xs)"
      by simp
    finally show ?thesis unfolding U .
  next
    case False
    define S where "S = insert (k x) seen"
    have both: "filter (\<lambda>y. k y \<noteq> k x) (filter (\<lambda>y. k y \<notin> seen) xs)
        = filter (\<lambda>y. k y \<notin> S) xs"
      by (rule filter_both) (auto simp: S_def)
    have "filter (\<lambda>y. k y \<noteq> k x) (firstOccurrencesBy k (filter (\<lambda>y. k y \<notin> seen) xs))
        = firstOccurrencesBy k (filter (\<lambda>y. k y \<noteq> k x) (filter (\<lambda>y. k y \<notin> seen) xs))"
      by (rule filter_firstOccurrencesBy [of "\<lambda>v. v \<noteq> k x"])
    then have *: "firstOccurrencesBy k (filter (\<lambda>y. k y \<notin> S) xs)
        = filter (\<lambda>y. k y \<noteq> k x) (firstOccurrencesBy k (filter (\<lambda>y. k y \<notin> seen) xs))"
      unfolding both by (rule sym)
    have U: "S \<union> k ` set xs = seen \<union> k ` set (x # xs)" by (auto simp: S_def)
    from False have "foldl ?f (seen, unique) (x # xs) = foldl ?f (S, unique @ [x]) xs"
      by (simp add: S_def)
    also have "\<dots> = (S \<union> k ` set xs,
        (unique @ [x]) @ firstOccurrencesBy k (filter (\<lambda>y. k y \<notin> S) xs))"
      by (rule Cons.IH)
    also from False have "(unique @ [x]) @ firstOccurrencesBy k (filter (\<lambda>y. k y \<notin> S) xs)
        = unique @ firstOccurrencesBy k (filter (\<lambda>y. k y \<notin> seen) (x # xs))"
      unfolding * by simp
    finally show ?thesis unfolding U .
  qed
qed

lemma deduplicateAnomalies_firstOccurrences:
  "deduplicateAnomalies xs = firstOccurrencesBy anomalyKey xs"
  unfolding deduplicateAnomalies_def by (simp add: dedup_foldl)

lemma firstOccurrencesBy_append:
  "firstOccurrencesBy k (xs @ ys)
     = firstOccurrencesBy k xs @ firstOccurrencesBy k (filter (\<lambda>y. k y \<notin> k ` set xs) ys)"
proof (induction xs arbitrary: ys)
  case Nil
  then show ?case by simp
next
  case (Cons x xs)
  have "filter (\<lambda>y. k y \<noteq> k x) (firstOccurrencesBy k (filter (\<lambda>y. k y \<notin> k ` set xs) ys))
      = firstOccurrencesBy k (filter (\<lambda>y. k y \<noteq> k x) (filter (\<lambda>y. k y \<notin> k ` set xs) ys))"
    by (rule filter_firstOccurrencesBy [of "\<lambda>v. v \<noteq> k x"])
  also have "filter (\<lambda>y. k y \<noteq> k x) (filter (\<lambda>y. k y \<notin> k ` set xs) ys)
      = filter (\<lambda>y. k y \<notin> k ` set (x # xs)) ys"
    by (rule filter_both) auto
  finally show ?case by (simp add: Cons.IH)
qed

lemma firstOccurrencesBy_twice:
  "firstOccurrencesBy k (xs @ xs) = firstOccurrencesBy k xs"
proof -
  have "filter (\<lambda>y. k y \<notin> k ` set xs) xs = []"
    by (simp add: filter_empty_conv)
  then show ?thesis by (simp add: firstOccurrencesBy_append)
qed

lemma firstOccurrencesBy_cong:
  assumes "\<And>a b. a \<in> set xs \<Longrightarrow> b \<in> set xs \<Longrightarrow> (k a = k b) = (k' a = k' b)"
  shows "firstOccurrencesBy k xs = firstOccurrencesBy k' xs"
  using assms
proof (induction xs)
  case Nil
  then show ?case by simp
next
  case (Cons x xs)
  have sub: "set (firstOccurrencesBy k' xs) \<subseteq> set xs" for k' :: "'a \<Rightarrow> 'd"
    by (induction xs) auto
  from Cons have IH: "firstOccurrencesBy k xs = firstOccurrencesBy k' xs" by simp
  have "filter (\<lambda>y. k y \<noteq> k x) (firstOccurrencesBy k' xs)
      = filter (\<lambda>y. k' y \<noteq> k' x) (firstOccurrencesBy k' xs)"
    using Cons.prems sub [of k'] by (intro filter_cong) auto
  with IH show ?case by simp
qed

lemma firstOccurrencesBy_set: "set (firstOccurrencesBy k xs) \<subseteq> set xs"
  by (induction xs) auto

lemma firstOccurrencesBy_keys: "k ` set (firstOccurrencesBy k xs) = k ` set xs"
proof (induction xs)
  case Nil
  then show ?case by simp
next
  case (Cons x xs)
  have "k ` set (filter (\<lambda>y. k y \<noteq> k x) (firstOccurrencesBy k xs))
      = k ` set (firstOccurrencesBy k xs) - {k x}"
    by auto
  then show ?case by (auto simp: Cons.IH)
qed

lemma firstOccurrencesBy_distinct: "distinct (map k (firstOccurrencesBy k xs))"
proof (induction xs)
  case Nil
  then show ?case by simp
next
  case (Cons x xs)
  have "distinct (map k (filter (\<lambda>y. k y \<noteq> k x) (firstOccurrencesBy k xs)))"
    using Cons.IH by (simp add: distinct_map_filter)
  then show ?case by auto
qed

lemma firstOccurrencesBy_find:
  "x \<in> set (firstOccurrencesBy k xs) \<Longrightarrow> find (\<lambda>y. k y = k x) xs = Some x"
  by (induction xs) (auto split: if_splits)

lemma digitChar_in: "d < 10 \<Longrightarrow> digitChar d \<in> set ''0123456789''"
  unfolding digitChar_def by (rule nth_mem) simp

lemma digitChar_inj:
  assumes "a < 10" "b < 10" "digitChar a = digitChar b"
  shows "a = b"
proof -
  have "distinct ''0123456789''" by simp
  with assms show ?thesis
    unfolding digitChar_def by (simp add: nth_eq_iff_index_eq)
qed

lemma showNat_digits: "set (showNat n) \<subseteq> set ''0123456789''"
proof (induction n rule: showNat.induct)
  case (1 n)
  show ?case
  proof (cases "n < 10")
    case True
    with digitChar_in [of n] show ?thesis by (simp add: showNat.simps [of n])
  next
    case False
    have "n mod 10 < 10" by simp
    from digitChar_in [OF this] "1" [OF False] False show ?thesis
      by (simp add: showNat.simps [of n])
  qed
qed

lemma showNat_nonempty: "showNat n \<noteq> []"
  by (simp add: showNat.simps [of n])

lemma showNat_no_hyphen: "CHR ''-'' \<notin> set (showNat n)"
  using showNat_digits [of n] by auto

lemma showNat_inj: "showNat n = showNat m \<Longrightarrow> n = m"
proof (induction n arbitrary: m rule: showNat.induct)
  case (1 n)
  show ?case
  proof (cases "n < 10")
    case True
    then have n: "showNat n = [digitChar n]" by (simp add: showNat.simps [of n])
    have "m < 10"
    proof (rule ccontr)
      assume "\<not> m < 10"
      then have "showNat m = showNat (m div 10) @ [digitChar (m mod 10)]"
        by (simp add: showNat.simps [of m])
      with "1.prems" n showNat_nonempty [of "m div 10"] show False by simp
    qed
    then have "showNat m = [digitChar m]" by (simp add: showNat.simps [of m])
    with "1.prems" n have "digitChar n = digitChar m" by simp
    with True \<open>m < 10\<close> show ?thesis by (rule digitChar_inj)
  next
    case False
    then have n: "showNat n = showNat (n div 10) @ [digitChar (n mod 10)]"
      by (simp add: showNat.simps [of n])
    have "\<not> m < 10"
    proof
      assume "m < 10"
      then have "showNat m = [digitChar m]" by (simp add: showNat.simps [of m])
      with "1.prems" n showNat_nonempty [of "n div 10"] show False by simp
    qed
    then have m: "showNat m = showNat (m div 10) @ [digitChar (m mod 10)]"
      by (simp add: showNat.simps [of m])
    from "1.prems" n m have eq: "showNat (n div 10) = showNat (m div 10)"
      and d: "digitChar (n mod 10) = digitChar (m mod 10)"
      by simp_all
    from "1.IH" [OF False eq] have "n div 10 = m div 10" .
    moreover from d have "n mod 10 = m mod 10"
      by (intro digitChar_inj) simp_all
    ultimately show ?thesis by (metis div_mult_mod_eq)
  qed
qed

text \<open>The decimal text of an epoch value: digits, after a minus sign below zero.\<close>

lemma showInt_inj: "showInt i = showInt j \<Longrightarrow> i = j"
proof -
  assume eq: "showInt i = showInt j"
  have hd_digit: "hd (showNat n) \<noteq> CHR ''-''" for n
    using showNat_no_hyphen [of n] showNat_nonempty [of n] by (cases "showNat n") auto
  show "i = j"
  proof (cases "i < 0")
    case True
    show ?thesis
    proof (cases "j < 0")
      case jn: True
      with True eq have "showNat (nat (- i)) = showNat (nat (- j))"
        by (simp add: showInt_def)
      then have "nat (- i) = nat (- j)" by (rule showNat_inj)
      with True jn show ?thesis by simp
    next
      case False
      with True eq have "CHR ''-'' # showNat (nat (- i)) = showNat (nat j)"
        by (simp add: showInt_def)
      then have "hd (showNat (nat j)) = CHR ''-''" by (metis list.sel(1))
      with hd_digit show ?thesis by blast
    qed
  next
    case False
    show ?thesis
    proof (cases "j < 0")
      case True
      with False eq have "showNat (nat i) = CHR ''-'' # showNat (nat (- j))"
        by (simp add: showInt_def)
      then have "hd (showNat (nat i)) = CHR ''-''" by (metis list.sel(1))
      with hd_digit show ?thesis by blast
    next
      case jp: False
      with False eq have "showNat (nat i) = showNat (nat j)"
        by (simp add: showInt_def)
      then have "nat i = nat j" by (rule showNat_inj)
      with False jp show ?thesis by simp
    qed
  qed
qed

lemma rev_showInt:
  "\<exists>ds. ds \<noteq> [] \<and> CHR ''-'' \<notin> set ds
        \<and> (rev (showInt i) = ds \<or> rev (showInt i) = ds @ ''-'')"
proof (cases "i < 0")
  case True
  then have "rev (showInt i) = rev (showNat (nat (- i))) @ ''-''"
    by (simp add: showInt_def)
  with showNat_nonempty showNat_no_hyphen show ?thesis
    by (intro exI [of _ "rev (showNat (nat (- i)))"]) simp
next
  case False
  then have "rev (showInt i) = rev (showNat (nat i))"
    by (simp add: showInt_def)
  with showNat_nonempty showNat_no_hyphen show ?thesis
    by (intro exI [of _ "rev (showNat (nat i))"]) simp
qed

lemma split_at_first:
  assumes "xs @ c # ys = xs' @ c # ys'" "c \<notin> set xs" "c \<notin> set xs'"
  shows "xs = xs' \<and> ys = ys'"
proof -
  have "takeWhile (\<lambda>y. y \<noteq> c) (xs @ c # ys) = xs"
    using assms(2) by (induction xs) auto
  moreover have "takeWhile (\<lambda>y. y \<noteq> c) (xs' @ c # ys') = xs'"
    using assms(3) by (induction xs') auto
  ultimately have "xs = xs'" using assms(1) by simp
  with assms(1) show ?thesis by simp
qed

lemma joined_key_inj:
  assumes eq: "p @ ''-'' @ m @ ''-'' @ showInt t = p' @ ''-'' @ m' @ ''-'' @ showInt t'"
    and m: "hyphenFree m" and m': "hyphenFree m'"
  shows "p = p' \<and> m = m' \<and> t = t'"
proof -
  let ?h = "CHR ''-''"
  from eq have "rev (p @ ''-'' @ m @ ''-'' @ showInt t) = rev (p' @ ''-'' @ m' @ ''-'' @ showInt t')"
    by simp
  then have req: "rev (showInt t) @ ?h # rev m @ ?h # rev p
      = rev (showInt t') @ ?h # rev m' @ ?h # rev p'"
    by simp
  obtain ds where ds: "ds \<noteq> []" "?h \<notin> set ds"
      "rev (showInt t) = ds \<or> rev (showInt t) = ds @ ''-''"
    using rev_showInt [of t] by blast
  obtain ds' where ds': "ds' \<noteq> []" "?h \<notin> set ds'"
      "rev (showInt t') = ds' \<or> rev (showInt t') = ds' @ ''-''"
    using rev_showInt [of t'] by blast
  from m have rm: "rev m \<noteq> []" "?h \<notin> set (rev m)" "hd (rev m) \<noteq> ?h"
    by (cases "rev m"; auto simp: hyphenFree_def)+
  from m' have rm': "rev m' \<noteq> []" "?h \<notin> set (rev m')" "hd (rev m') \<noteq> ?h"
    by (cases "rev m'"; auto simp: hyphenFree_def)+
  define R where "R = rev m @ ?h # rev p"
  define R' where "R' = rev m' @ ?h # rev p'"
  have hdR: "hd R \<noteq> ?h" "hd R' \<noteq> ?h"
    using rm rm' by (simp_all add: R_def R'_def)
  from req have req': "rev (showInt t) @ ?h # R = rev (showInt t') @ ?h # R'"
    by (simp add: R_def R'_def)
  note split = split_at_first [where c = ?h]
  from ds(3) ds'(3) have "rev (showInt t) = rev (showInt t') \<and> R = R'"
  proof (elim disjE)
    assume a: "rev (showInt t) = ds" "rev (showInt t') = ds'"
    with req' have "ds @ ?h # R = ds' @ ?h # R'" by simp
    from split [OF this ds(2) ds'(2)] a show ?thesis by simp
  next
    assume a: "rev (showInt t) = ds @ ''-''" "rev (showInt t') = ds' @ ''-''"
    with req' have "ds @ ?h # (?h # R) = ds' @ ?h # (?h # R')" by simp
    from split [OF this ds(2) ds'(2)] a show ?thesis by simp
  next
    assume a: "rev (showInt t) = ds" "rev (showInt t') = ds' @ ''-''"
    with req' have "ds @ ?h # R = ds' @ ?h # (?h # R')" by simp
    from split [OF this ds(2) ds'(2)] have "R = ?h # R'" by simp
    with hdR show ?thesis by simp
  next
    assume a: "rev (showInt t) = ds @ ''-''" "rev (showInt t') = ds'"
    with req' have "ds @ ?h # (?h # R) = ds' @ ?h # R'" by simp
    from split [OF this ds(2) ds'(2)] have "R' = ?h # R" by simp
    with hdR show ?thesis by simp
  qed
  then have t: "showInt t = showInt t'" and R: "R = R'" by simp_all
  from R have "rev m @ ?h # rev p = rev m' @ ?h # rev p'" by (simp add: R_def R'_def)
  from split [OF this rm(2) rm'(2)] have "m = m'" "p = p'" by simp_all
  with showInt_inj [OF t] show ?thesis by simp
qed

lemma anomalyKey_eq_iff:
  assumes "hyphenFree (metric a)" "hyphenFree (metric b)"
  shows "anomalyKey a = anomalyKey b \<longleftrightarrow> anomalyTriple a = anomalyTriple b"
proof
  assume "anomalyKey a = anomalyKey b"
  with joined_key_inj [OF _ assms, of "page a" "timestamp a" "page b" "timestamp b"]
  show "anomalyTriple a = anomalyTriple b"
    by (simp add: anomalyKey_def anomalyTriple_def)
next
  assume "anomalyTriple a = anomalyTriple b"
  then show "anomalyKey a = anomalyKey b"
    by (simp add: anomalyKey_def anomalyTriple_def)
qed

lemma trackedMetricLabels_hyphenFree:
  "m \<in> set trackedMetricLabels \<Longrightarrow> hyphenFree m"
  by (auto simp: trackedMetricLabels_def hyphenFree_def)

lemma detected_metric_label:
  assumes "a \<in> set (detectAnomalies db now) \<or> a \<in> set (detectGranularAnomalies db now')"
  shows "metric a \<in> set trackedMetricLabels"
  using assms
proof
  assume "a \<in> set (detectGranularAnomalies db now')"
  from detectGranularAnomalies_from_recent [OF this] show ?thesis
    by (auto simp: trackedMetricLabels_def)
next
  assume "a \<in> set (detectAnomalies db now)"
  then consider p where
      "a \<in> set (detectTrafficAnomalies db p (now - sixHours) (now - thirtyHours) (now - sixHours))"
    | p where "a \<in> set (detectEngagementAnomalies db p (now - sixHours) (now - thirtyHours)
                         (now - sixHours))"
    | p where "a \<in> set (detectPerformanceAnomalies db p (now - sixHours) (now - thirtyHours)
                         (now - sixHours))"
    unfolding detectAnomalies_concat by auto
  then show ?thesis
  proof cases
    case 1
    from detectTrafficAnomalies_from_recent [OF this] show ?thesis
      by (auto simp: trackedMetricLabels_def)
  next
    case 2
    then show ?thesis
      unfolding detectEngagementAnomalies_def
      by (auto dest!: detectMetricAnomaly_from_recent simp: trackedMetricLabels_def)
  next
    case 3
    then show ?thesis
      unfolding detectPerformanceAnomalies_def
      by (auto dest!: detectMetricAnomaly_from_recent simp: trackedMetricLabels_def)
  qed
qed

section \<open>Deduplication by triple\<close>

lemma deduplicateAnomalies_by_triple:
  assumes "\<And>a. a \<in> set L \<Longrightarrow> hyphenFree (metric a)"
  shows "deduplicateAnomalies L = firstOccurrencesBy anomalyTriple L"
  unfolding deduplicateAnomalies_firstOccurrences
  by (rule firstOccurrencesBy_cong) (simp add: anomalyKey_eq_iff assms)

lemma deduplicateAnomalies_detected:
  "deduplicateAnomalies (detectAnomalies db now @ detectGranularAnomalies db now')
     = firstOccurrencesBy anomalyTriple (detectAnomalies db now @ detectGranularAnomalies db now')"
proof (rule deduplicateAnomalies_by_triple)
  fix a
  assume "a \<in> set (detectAnomalies db now @ detectGranularAnomalies db now')"
  then have "a \<in> set (detectAnomalies db now) \<or> a \<in> set (detectGranularAnomalies db now')"
    by simp
  from detected_metric_label [OF this] show "hyphenFree (metric a)"
    by (rule trackedMetricLabels_hyphenFree)
qed

section \<open>The sample repository, evaluated\<close>

lemma sample_pages: "getUniquePages sampleDb = [''/goa'', ''/checkout'']"
  by (simp add: getUniquePages_def sampleDb_def pvRow_def)

lemma sample_stats:
  "calculateMean [1, 3] = 2" "calculateStdDev [1, 3] 2 = 1"
  "calculateMean [5, 5] = 5" "calculateStdDev [5, 5] 5 = 0"
  "calculateMean [0, 0] = 0"
  by code_simp+

lemma zero_mean_never_flags: "\<not> isAnomalous 0 s v"
  by (simp add: isAnomalous_def)

lemma sample_flags: "isAnomalous 2 1 10" "isAnomalous 5 0 6"
  by code_simp+

lemma sample_traffic:
  "detectTrafficAnomalies sampleDb ''/goa'' 86400000 0 86400000 = [goaTraffic]"
  "detectTrafficAnomalies sampleDb ''/checkout'' 86400000 0 86400000 = [checkoutTraffic]"
  by (simp_all add: detectTrafficAnomalies_def Let_def sample_defs sample_stats sample_flags
      trafficLoop_def goaTraffic_def checkoutTraffic_def)

lemma sample_engagement:
  "detectEngagementAnomalies sampleDb p 86400000 0 86400000 = []"
  by (simp add: detectEngagementAnomalies_def detectMetricAnomaly_def Let_def sample_defs)

lemma sample_performance:
  "detectPerformanceAnomalies sampleDb ''/goa'' 86400000 0 86400000 = [goaLoadTime]"
  "detectPerformanceAnomalies sampleDb ''/checkout'' 86400000 0 86400000 = [checkoutLoadTime]"
  by (simp_all add: detectPerformanceAnomalies_def detectMetricAnomaly_def Let_def sample_defs
      sample_stats sample_flags zero_mean_never_flags metricLoop_def goaLoadTime_def
      checkoutLoadTime_def)

lemma sample_detectAnomalies:
  "detectAnomalies sampleDb 108000000
     = [goaTraffic, goaLoadTime, checkoutTraffic, checkoutLoadTime]"
  by (simp add: detectAnomalies_concat sample_pages sixHours_def thirtyHours_def sample_traffic
      sample_engagement sample_performance)

lemma sample_detectGranularAnomalies:
  "detectGranularAnomalies sampleDb 108000000 = [goaTraffic, checkoutTraffic]"
  by (simp add: detectGranularAnomalies_concat sample_pages sixHours_def thirtyHours_def
      sample_traffic)

lemma sample_triples:
  "anomalyTriple goaTraffic = (''/goa'', ''PageViews'', 90000000)"
  "anomalyTriple goaLoadTime = (''/goa'', ''Load Time'', 90000000)"
  "anomalyTriple checkoutTraffic = (''/checkout'', ''PageViews'', 90000000)"
  "anomalyTriple checkoutLoadTime = (''/checkout'', ''Load Time'', 90000000)"
  by (simp_all add: anomalyTriple_def goaTraffic_def goaLoadTime_def checkoutTraffic_def
      checkoutLoadTime_def pvRow_def pfRow_def)

lemma sample_unique:
  "uniqueAnomaliesOf sampleDb fixedClock
     = [goaTraffic, goaLoadTime, checkoutTraffic, checkoutLoadTime]"
proof -
  have "uniqueAnomaliesOf sampleDb fixedClock
      = firstOccurrencesBy anomalyTriple
          (detectAnomalies sampleDb 108000000 @ detectGranularAnomalies sampleDb 108000000)"
    by (simp add: uniqueAnomaliesOf_def fixedClock_def Let_def deduplicateAnomalies_detected)
  then show ?thesis
    by (simp add: sample_detectAnomalies sample_detectGranularAnomalies sample_triples)
qed

lemma sample_correlations:
  "analyzeCorrelations sampleDb tz [goaTraffic, goaLoadTime, checkoutTraffic, checkoutLoadTime] = []"
  by (simp add: analyzeCorrelations_def trafficCorrelation_def loadTimeCorrelation_def
      getConversionDataForPage_def getBounceRateForPage_def findFirstUserActions_def
      findManyUserActions_def sampleDb_def Let_def)

lemma sample_insights:
  "collectInsights [goaTraffic, goaLoadTime, checkoutTraffic, checkoutLoadTime] []
     = [generateTrafficInsight goaTraffic, generatePerformanceInsight goaLoadTime,
        generateTrafficInsight checkoutTraffic, generatePerformanceInsight checkoutLoadTime]"
  by (simp add: collectInsights_def generateInsightForAnomaly_def goaTraffic_def
      goaLoadTime_def checkoutTraffic_def checkoutLoadTime_def)

lemma sample_scored:
  "scoreInsights fixedClock [goaTraffic, goaLoadTime, checkoutTraffic, checkoutLoadTime]
        [generateTrafficInsight goaTraffic, generatePerformanceInsight goaLoadTime,
         generateTrafficInsight checkoutTraffic, generatePerformanceInsight checkoutLoadTime]
     = [(generateTrafficInsight goaTraffic)\<lparr>impactScore := 63\<rparr>,
        (generatePerformanceInsight goaLoadTime)\<lparr>impactScore := 67\<rparr>,
        (generateTrafficInsight checkoutTraffic)\<lparr>impactScore := 40\<rparr>,
        (generatePerformanceInsight checkoutLoadTime)\<lparr>impactScore := 44\<rparr>]"
proof -
  let ?all = "[goaTraffic, goaLoadTime, checkoutTraffic, checkoutLoadTime]"
  have scores:
    "calculateImpactScore 108000000 (generateTrafficInsight goaTraffic) ?all = 63"
    "calculateImpactScore 108000000 (generatePerformanceInsight goaLoadTime) ?all = 67"
    "calculateImpactScore 108000000 (generateTrafficInsight checkoutTraffic) ?all = 40"
    "calculateImpactScore 108000000 (generatePerformanceInsight checkoutLoadTime) ?all = 44"
    by code_simp+
  show ?thesis
    by (simp add: scoreInsights_def fixedClock_def scores enumerate_eq_zip upt_rec)
qed

lemma sample_ranked:
  "take 5 (sortByImpact
     [(generateTrafficInsight goaTraffic)\<lparr>impactScore := 63\<rparr>,
      (generatePerformanceInsight goaLoadTime)\<lparr>impactScore := 67\<rparr>,
      (generateTrafficInsight checkoutTraffic)\<lparr>impactScore := 40\<rparr>,
      (generatePerformanceInsight checkoutLoadTime)\<lparr>impactScore := 44\<rparr>])
   = [(generatePerformanceInsight goaLoadTime)\<lparr>impactScore := 67\<rparr>,
      (generateTrafficInsight goaTraffic)\<lparr>impactScore := 63\<rparr>,
      (generatePerformanceInsight checkoutLoadTime)\<lparr>impactScore := 44\<rparr>,
      (generateTrafficInsight checkoutTraffic)\<lparr>impactScore := 40\<rparr>]"
  by (simp add: sortByImpact_def)

text \<open>
  An input at which the rounding decides the test: for the view counts
  \<open>37, 60, 28, 7, 55, 55, 56, 22, 46\<close> and a recent count of \<open>84\<close> the exact deviation and the
  exact threshold are both \<open>130 / 3\<close>; the computed deviation \<open>43.333333333333336\<close> exceeds
  the computed threshold \<open>43.33333333333333\<close>, and the row is flagged.
\<close>

lemma threshold_tie_rounding:
  "calculateMean [37, 60, 28, 7, 55, 55, 56, 22, 46] = rnd 40.666666666666664"
  "calculateStdDev [37, 60, 28, 7, 55, 55, 56, 22, 46] (rnd 40.666666666666664)
     = rnd 17.333333333333332"
  "fsub 84 (rnd 40.666666666666664) = rnd 43.333333333333336"
  "fmul 2.5 (rnd 17.333333333333332) = rnd 43.33333333333333"
  "isAnomalous (rnd 40.666666666666664) (rnd 17.333333333333332) 84"
  by code_simp+


text \<open>
  An input at which the rounding of the doubles shows: for a change of \<open>285\<close> percent scored
  \<open>3.2\<close> hours after detection the products are \<open>17.099999999999998\<close>, \<open>24\<close> and \<open>20.4\<close>,
  their sum is just below \<open>61.5\<close> and the score is \<open>61\<close>, where the sum of the exact
  products is \<open>61.5\<close>.
\<close>

lemma score_below_half:
  "calculateImpactScore (90000000 + 11520000)
       (generateTrafficInsight (surgeAnomaly\<lparr>percentageChange := 285\<rparr>))
       [surgeAnomaly\<lparr>percentageChange := 285\<rparr>] = 61"
  "fmul 57 (rnd 0.3) = rnd 17.099999999999998"
  "round (57 * 0.3 + 60 * 0.4 + 68 * 0.3 :: real) = 62"
  by code_simp+
section \<open>Correlation lookups as window conditions\<close>





lemma window_mean_rounding:
  "calculateMean [16, 17, 17] = rnd 16.666666666666668"
  "fmul (calculateMean [16, 17, 17]) (rnd 0.9) = rnd 15.000000000000002"
  "15 < fmul (calculateMean [16, 17, 17]) (rnd 0.9)"
  "\<not> (15 :: real) < (16 + 17 + 17) / 3 * 0.9"
  by code_simp+







section \<open>A repository without anomalies\<close>

lemma granular_stats:
  "calculateMean [1, 1, 9, 9] = 5" "calculateStdDev [1, 1, 9, 9] 5 = 4" "\<not> isAnomalous 5 4 3"
  "calculateMean [1, 1] = 1" "calculateStdDev [1, 1] 1 = 0" "isAnomalous 1 0 3"
  by code_simp+

lemma quiet_repository:
  "detectAnomalies granularDb 108000000 = []"
  "detectGranularAnomalies granularDb 108000000 = []"
proof -
  have pages: "getUniquePages granularDb = [''/coorg'']"
    by (simp add: getUniquePages_def granularDb_def pvRow_def)
  note stats = granular_stats
  have traffic: "detectTrafficAnomalies granularDb ''/coorg'' 86400000 0 86400000 = []"
    by (simp add: detectTrafficAnomalies_def Let_def granularDb_def pvRow_def
        findManyPageViews_def pageWhere_def inTimestampFilter_def columnMatches_def
        stats trafficLoop_def)
  show "detectGranularAnomalies granularDb 108000000 = []"
    by (simp add: detectGranularAnomalies_concat pages sixHours_def thirtyHours_def traffic)
  have none: "detectMetricAnomaly granularDb ''/coorg'' 86400000 0 86400000 field mType mName ex = []"
    for field mType mName ex
    by (simp add: detectMetricAnomaly_def Let_def granularDb_def findManyMetric_def
        findManyUserActions_def findManyPerformance_def)
  show "detectAnomalies granularDb 108000000 = []"
    by (simp add: detectAnomalies_concat pages sixHours_def thirtyHours_def traffic
        detectEngagementAnomalies_def detectPerformanceAnomalies_def none)
qed

lemma deduplicateAnomalies_Nil: "deduplicateAnomalies [] = []"
  by (simp add: deduplicateAnomalies_def)

lemma no_anomalies_no_insights:
  assumes "detectAnomalies db (atDetection clk) = []"
      and "detectGranularAnomalies db (atGranular clk) = []"
  shows "generateBusinessInsights db tz clk = []"
  using assms
  by (simp add: generateBusinessInsights_def scoredInsightsOf_def uniqueAnomaliesOf_def Let_def
      deduplicateAnomalies_Nil analyzeCorrelations_def collectInsights_def scoreInsights_def
      sortByImpact_def)

section \<open>Detection against the baseline\<close>



section \<open>A constant baseline\<close>




section \<open>The recent window\<close>

text \<open>
  Claim C7, as stated, fails: the recent query filters with \<open>gte: recentStart\<close> only, so a
  row stamped after the clock reading is fetched, compared and flagged.
\<close>

theorem recent_window_upper_bound_counterexample:
  "pvRow 111600000 ''/goa'' ''Google'' 10
     \<in> set (findManyPageViews futureDb (pageWhere ''/goa'' (108000000 - sixHours) None))
   \<and> detectAnomalies futureDb 108000000
       = [trafficAnomaly 2 1 (pvRow 111600000 ''/goa'' ''Google'' 10)]
   \<and> timestamp (trafficAnomaly 2 1 (pvRow 111600000 ''/goa'' ''Google'' 10)) = 111600000
   \<and> \<not> (111600000 < (108000000 :: int))"
  by (simp add: detectAnomalies_def detectTrafficAnomalies_def detectEngagementAnomalies_def
      detectPerformanceAnomalies_def detectMetricAnomaly_def getUniquePages_def Let_def
      futureDb_def pvRow_def findManyPageViews_def findManyPerformance_def
      findManyUserActions_def findManyMetric_def pageWhere_def inTimestampFilter_def
      columnMatches_def sixHours_def thirtyHours_def sample_stats sample_flags
      trafficLoop_def)

text \<open>
  Claim C7, amended. The rows tested against the baseline are exactly the rows of the page
  stamped at or after \<open>now - 6h\<close>, with no upper bound; so every anomaly of either pass is
  stamped at or after \<open>now - 6h\<close>, and it is stamped before \<open>now\<close> when the repository holds
  no row stamped at or after \<open>now\<close>.
\<close>

theorem tested_rows_at_or_after_recent_start:
  "set (findManyPageViews db (pageWhere p (now - sixHours) None))
     = {r \<in> set (pageViewsHourly db). pv_page r = p \<and> now - sixHours \<le> pv_timestamp r}
   \<and> set (findManyMetric db field (pageWhere p (now - sixHours) None))
     = (if isUserActionsField field
        then UserActionsRow ` {r \<in> set (userActionsHourly db).
                                ua_page r = p \<and> now - sixHours \<le> ua_timestamp r}
        else PerformanceRow ` {r \<in> set (performanceHourly db).
                                pf_page r = p \<and> now - sixHours \<le> pf_timestamp r})
   \<and> (\<forall>a \<in> set (detectAnomalies db now) \<union> set (detectGranularAnomalies db now).
         now - sixHours \<le> timestamp a)
   \<and> ((\<forall>r \<in> set (pageViewsHourly db). pv_timestamp r < now)
        \<and> (\<forall>r \<in> set (userActionsHourly db). ua_timestamp r < now)
        \<and> (\<forall>r \<in> set (performanceHourly db). pf_timestamp r < now)
      \<longrightarrow> (\<forall>a \<in> set (detectAnomalies db now) \<union> set (detectGranularAnomalies db now).
             timestamp a < now))"
proof (intro conjI)
  show "set (findManyPageViews db (pageWhere p (now - sixHours) None))
     = {r \<in> set (pageViewsHourly db). pv_page r = p \<and> now - sixHours \<le> pv_timestamp r}"
    by (rule findManyPageViews_pageWhere)
  show "set (findManyMetric db field (pageWhere p (now - sixHours) None))
     = (if isUserActionsField field
        then UserActionsRow ` {r \<in> set (userActionsHourly db).
                                ua_page r = p \<and> now - sixHours \<le> ua_timestamp r}
        else PerformanceRow ` {r \<in> set (performanceHourly db).
                                pf_page r = p \<and> now - sixHours \<le> pf_timestamp r})"
    by (rule findManyMetric_recent)
  show "\<forall>a \<in> set (detectAnomalies db now) \<union> set (detectGranularAnomalies db now).
         now - sixHours \<le> timestamp a"
    using detected_timestamp_bounds [of _ db now] by blast
  show "(\<forall>r \<in> set (pageViewsHourly db). pv_timestamp r < now)
        \<and> (\<forall>r \<in> set (userActionsHourly db). ua_timestamp r < now)
        \<and> (\<forall>r \<in> set (performanceHourly db). pf_timestamp r < now)
      \<longrightarrow> (\<forall>a \<in> set (detectAnomalies db now) \<union> set (detectGranularAnomalies db now).
             timestamp a < now)"
  proof (intro impI ballI)
    fix a
    assume old: "(\<forall>r \<in> set (pageViewsHourly db). pv_timestamp r < now)
        \<and> (\<forall>r \<in> set (userActionsHourly db). ua_timestamp r < now)
        \<and> (\<forall>r \<in> set (performanceHourly db). pf_timestamp r < now)"
      and a: "a \<in> set (detectAnomalies db now) \<union> set (detectGranularAnomalies db now)"
    from a have "a \<in> set (detectAnomalies db now) \<or> a \<in> set (detectGranularAnomalies db now)"
      by simp
    from detected_timestamp_bounds [OF this] old show "timestamp a < now" by auto
  qed
qed

text \<open>
  The theorem at the sample repository and the clock reading \<open>108000000\<close>: all its rows are
  older, and the anomaly on \<open>/goa\<close> is stamped \<open>90000000\<close>, inside the last six hours.
\<close>

theorem tested_rows_at_or_after_recent_start_witness:
  "list_all (\<lambda>r. pv_timestamp r < 108000000) (pageViewsHourly sampleDb)
   \<and> list_all (\<lambda>r. ua_timestamp r < 108000000) (userActionsHourly sampleDb)
   \<and> list_all (\<lambda>r. pf_timestamp r < 108000000) (performanceHourly sampleDb)
   \<and> trafficAnomaly 2 1 (pvRow 90000000 ''/goa'' ''Google'' 10)
        \<in> set (detectAnomalies sampleDb 108000000)
   \<and> 108000000 - sixHours \<le> timestamp (trafficAnomaly 2 1 (pvRow 90000000 ''/goa'' ''Google'' 10))
   \<and> timestamp (trafficAnomaly 2 1 (pvRow 90000000 ''/goa'' ''Google'' 10)) < 108000000"
proof -
  have old: "(\<forall>r \<in> set (pageViewsHourly sampleDb). pv_timestamp r < 108000000)
   \<and> (\<forall>r \<in> set (userActionsHourly sampleDb). ua_timestamp r < 108000000)
   \<and> (\<forall>r \<in> set (performanceHourly sampleDb). pf_timestamp r < 108000000)"
    by (simp add: sampleDb_def pvRow_def pfRow_def)
  have pages: "getUniquePages sampleDb = [''/goa'', ''/checkout'']"
    by (simp add: getUniquePages_def sampleDb_def pvRow_def)
  have "detectTrafficAnomalies sampleDb ''/goa'' 86400000 0 86400000
          = [trafficAnomaly 2 1 (pvRow 90000000 ''/goa'' ''Google'' 10)]"
    by (simp add: detectTrafficAnomalies_def Let_def sample_defs sample_stats sample_flags
        trafficLoop_def)
  then have mem: "trafficAnomaly 2 1 (pvRow 90000000 ''/goa'' ''Google'' 10)
        \<in> set (detectAnomalies sampleDb 108000000)"
    by (simp add: detectAnomalies_concat pages sixHours_def thirtyHours_def)
  from tested_rows_at_or_after_recent_start [of sampleDb "''/goa''" 108000000 "''avgLoadTime''"]
    old mem
  have "108000000 - sixHours \<le> timestamp (trafficAnomaly 2 1 (pvRow 90000000 ''/goa'' ''Google'' 10))
      \<and> timestamp (trafficAnomaly 2 1 (pvRow 90000000 ''/goa'' ''Google'' 10)) < 108000000"
    by blast
  with old mem show ?thesis by (simp add: list_all_iff)
qed

section \<open>The granular pass\<close>




section \<open>The impact score\<close>



text \<open>
  Claim C6. For a clock reading not before \<open>detectedAt\<close> (non-negative hours since
  detection), any insight type and any percentage change, the score is an integer between
  \<open>0\<close> and \<open>100\<close>; this includes the default \<open>50\<close> when no anomaly matches.
\<close>

theorem impact_score_in_range:
  "detectedAt insight \<le> now \<longrightarrow>
     0 \<le> calculateImpactScore now insight allAnomalies
     \<and> calculateImpactScore now insight allAnomalies \<le> 100"
proof
  assume le: "detectedAt insight \<le> now"
  show "0 \<le> calculateImpactScore now insight allAnomalies
     \<and> calculateImpactScore now insight allAnomalies \<le> 100"
  proof (cases "find (\<lambda>a. page a = insightPage insight \<and> timestamp a = detectedAt insight)
      allAnomalies")
    case None
    then show ?thesis by (simp add: calculateImpactScore_def)
  next
    case (Some anomaly)
    define m where "m = min (fdiv \<bar>percentageChange anomaly\<bar> 5) 100"
    define c where "c = criticalityOf (insightType insight)"
    define h where "h = fdiv (fsub (real_of_int now) (real_of_int (detectedAt insight)))
                          (1000 * 60 * 60)"
    define r where "r = max 0 (fsub 100 (fmul h 10))"
    have "0 \<le> fdiv \<bar>percentageChange anomaly\<bar> 5"
      unfolding fdiv_def by (rule rnd_nonneg) simp
    then have m: "0 \<le> m" "m \<le> 100" by (simp_all add: m_def)
    have c: "0 \<le> c" "c \<le> 90"
      using criticalityOf_cases [of "insightType insight"] by (auto simp: c_def)
    from le have "0 \<le> fsub (real_of_int now) (real_of_int (detectedAt insight))"
      unfolding fsub_def by (intro rnd_nonneg) simp
    then have "0 \<le> h"
      unfolding h_def fdiv_def by (intro rnd_nonneg) simp
    then have r: "0 \<le> r" "r \<le> 101"
      unfolding r_def by (rule recency_bounds)+
    have score: "calculateImpactScore now insight allAnomalies
        = round (fadd (fadd (fmul m (rnd 0.3)) (fmul c (rnd 0.4))) (fmul r (rnd 0.3)))"
      unfolding calculateImpactScore_def Some option.case Let_def m_def c_def r_def h_def ..
    have "round (0 :: real) \<le> round (fadd (fadd (fmul m (rnd 0.3)) (fmul c (rnd 0.4))) (fmul r (rnd 0.3)))"
      by (rule round_mono) (rule weighted_score_bounds(1) [OF m c r])
    moreover have "round (fadd (fadd (fmul m (rnd 0.3)) (fmul c (rnd 0.4))) (fmul r (rnd 0.3)))
        \<le> round (100 :: real)"
      by (rule round_mono) (rule weighted_score_bounds(2) [OF m c r])
    ultimately show ?thesis by (simp add: score)
  qed
qed

theorem impact_score_in_range_witness:
  "detectedAt (generateTrafficInsight surgeAnomaly) \<le> 90000000 + 3 * 3600000
   \<and> 0 \<le> calculateImpactScore (90000000 + 3 * 3600000) (generateTrafficInsight surgeAnomaly)
            [surgeAnomaly]
   \<and> calculateImpactScore (90000000 + 3 * 3600000) (generateTrafficInsight surgeAnomaly)
        [surgeAnomaly] \<le> 100"
proof -
  have at: "detectedAt (generateTrafficInsight surgeAnomaly) \<le> 90000000 + 3 * 3600000"
    by (simp add: generateTrafficInsight_def surgeAnomaly_def pvRow_def)
  with impact_score_in_range [of "generateTrafficInsight surgeAnomaly" "90000000 + 3 * 3600000"
      "[surgeAnomaly]"]
  show ?thesis by blast
qed

section \<open>Deduplication of merged detections\<close>

text \<open>
  Claim C4. \<open>deduplicateAnomalies\<close> is idempotent on a doubled list: for every list \<open>L\<close>,
  deduplicating \<open>L @ L\<close> gives the same list, so the same size, as deduplicating \<open>L\<close>. Its
  key is the string \<open>page-metric-epoch\<close>; when the metric labels are non-empty and have no
  hyphen (pages may have hyphens) two anomalies share a key exactly when they share the
  triple (page, metric, timestamp epoch), and the result keeps, in order, exactly the first
  occurrence of each triple. The labels the detectors write satisfy this, so the
  deduplication of any merged detection output is the deduplication by triple.
\<close>

theorem deduplication_first_occurrence_idempotent:
  "deduplicateAnomalies (L @ L) = deduplicateAnomalies L
   \<and> length (deduplicateAnomalies (L @ L)) = length (deduplicateAnomalies L)
   \<and> ((\<forall>a \<in> set L. hyphenFree (metric a)) \<longrightarrow>
         deduplicateAnomalies L = firstOccurrencesBy anomalyTriple L
       \<and> (\<forall>x \<in> set (deduplicateAnomalies L).
             find (\<lambda>y. anomalyTriple y = anomalyTriple x) L = Some x)
       \<and> distinct (map anomalyTriple (deduplicateAnomalies L))
       \<and> anomalyTriple ` set (deduplicateAnomalies L) = anomalyTriple ` set L)
   \<and> (\<forall>a \<in> set (detectAnomalies db now @ detectGranularAnomalies db now').
         hyphenFree (metric a))
   \<and> deduplicateAnomalies (detectAnomalies db now @ detectGranularAnomalies db now')
       = firstOccurrencesBy anomalyTriple
           (detectAnomalies db now @ detectGranularAnomalies db now')"
proof (intro conjI impI)
  show twice: "deduplicateAnomalies (L @ L) = deduplicateAnomalies L"
    by (simp only: deduplicateAnomalies_firstOccurrences firstOccurrencesBy_twice)
  then show "length (deduplicateAnomalies (L @ L)) = length (deduplicateAnomalies L)"
    by simp
next
  assume "\<forall>a \<in> set L. hyphenFree (metric a)"
  then have eq: "deduplicateAnomalies L = firstOccurrencesBy anomalyTriple L"
    by (intro deduplicateAnomalies_by_triple) blast
  then show "deduplicateAnomalies L = firstOccurrencesBy anomalyTriple L" .
  show "\<forall>x \<in> set (deduplicateAnomalies L).
             find (\<lambda>y. anomalyTriple y = anomalyTriple x) L = Some x"
    unfolding eq using firstOccurrencesBy_find [of _ anomalyTriple L] by blast
  show "distinct (map anomalyTriple (deduplicateAnomalies L))"
    unfolding eq by (rule firstOccurrencesBy_distinct)
  show "anomalyTriple ` set (deduplicateAnomalies L) = anomalyTriple ` set L"
    unfolding eq by (rule firstOccurrencesBy_keys)
next
  show "\<forall>a \<in> set (detectAnomalies db now @ detectGranularAnomalies db now').
         hyphenFree (metric a)"
  proof
    fix a
    assume "a \<in> set (detectAnomalies db now @ detectGranularAnomalies db now')"
    then have "a \<in> set (detectAnomalies db now) \<or> a \<in> set (detectGranularAnomalies db now')"
      by simp
    from detected_metric_label [OF this] show "hyphenFree (metric a)"
      by (rule trackedMetricLabels_hyphenFree)
  qed
  show "deduplicateAnomalies (detectAnomalies db now @ detectGranularAnomalies db now')
       = firstOccurrencesBy anomalyTriple
           (detectAnomalies db now @ detectGranularAnomalies db now')"
    by (rule deduplicateAnomalies_detected)
qed

text \<open>
  The theorem on the list of a traffic anomaly, a load-time anomaly of the same page and
  hour, and the traffic anomaly again: the repeated one is dropped, the other two stay.
\<close>

theorem deduplication_first_occurrence_idempotent_witness:
  "list_all (\<lambda>a. hyphenFree (metric a)) [goaTraffic, goaLoadTime, goaTraffic]
   \<and> deduplicateAnomalies [goaTraffic, goaLoadTime, goaTraffic] = [goaTraffic, goaLoadTime]
   \<and> deduplicateAnomalies ([goaTraffic, goaLoadTime, goaTraffic]
                            @ [goaTraffic, goaLoadTime, goaTraffic])
       = [goaTraffic, goaLoadTime]"
proof -
  have hf: "\<forall>a \<in> set [goaTraffic, goaLoadTime, goaTraffic]. hyphenFree (metric a)"
    by (simp add: goaTraffic_def goaLoadTime_def hyphenFree_def)
  have triples: "anomalyTriple goaTraffic \<noteq> anomalyTriple goaLoadTime"
    by (simp add: anomalyTriple_def goaTraffic_def goaLoadTime_def)
  note inst = deduplication_first_occurrence_idempotent
      [of "[goaTraffic, goaLoadTime, goaTraffic]" sampleDb 108000000 108000000]
  from inst hf have "deduplicateAnomalies [goaTraffic, goaLoadTime, goaTraffic]
      = firstOccurrencesBy anomalyTriple [goaTraffic, goaLoadTime, goaTraffic]"
    by blast
  with triples have one: "deduplicateAnomalies [goaTraffic, goaLoadTime, goaTraffic]
      = [goaTraffic, goaLoadTime]"
    using triples [symmetric] by simp
  from inst have "deduplicateAnomalies ([goaTraffic, goaLoadTime, goaTraffic]
                            @ [goaTraffic, goaLoadTime, goaTraffic])
      = deduplicateAnomalies [goaTraffic, goaLoadTime, goaTraffic]"
    by blast
  with one hf show ?thesis by (simp add: list_all_iff)
qed

section \<open>Ranking\<close>

text \<open>
  Claim C3. \<open>generateBusinessInsights\<close> returns the first five of the scored insights
  after the sort. For any list of scored insights the result is in descending order of
  impact score, has at most five entries and no more than the list, holds only entries of
  the list, holds all of them when the list has at most five, is empty when the list is,
  and no insight left out scores higher than one returned.
\<close>

theorem ranked_output_sorted_top_five:
  "generateBusinessInsights db tz clk
     = take 5 (sortByImpact
         (scoreInsights clk (uniqueAnomaliesOf db clk)
            (collectInsights (uniqueAnomaliesOf db clk)
               (analyzeCorrelations db tz (uniqueAnomaliesOf db clk)))))
   \<and> (let ranked = take 5 (sortByImpact scored)
      in sorted_wrt (\<lambda>a b. impactScore b \<le> impactScore a) ranked
       \<and> length ranked \<le> 5
       \<and> length ranked \<le> length scored
       \<and> mset ranked \<subseteq># mset scored
       \<and> (length scored \<le> 5 \<longrightarrow> mset ranked = mset scored)
       \<and> (scored = [] \<longrightarrow> ranked = [])
       \<and> (\<forall>a \<in> set ranked. \<forall>b \<in> set (drop 5 (sortByImpact scored)).
             impactScore b \<le> impactScore a))"
proof (intro conjI)
  show "generateBusinessInsights db tz clk
     = take 5 (sortByImpact
         (scoreInsights clk (uniqueAnomaliesOf db clk)
            (collectInsights (uniqueAnomaliesOf db clk)
               (analyzeCorrelations db tz (uniqueAnomaliesOf db clk)))))"
    by (simp add: generateBusinessInsights_def scoredInsightsOf_def Let_def)
  show "let ranked = take 5 (sortByImpact scored)
      in sorted_wrt (\<lambda>a b. impactScore b \<le> impactScore a) ranked
       \<and> length ranked \<le> 5
       \<and> length ranked \<le> length scored
       \<and> mset ranked \<subseteq># mset scored
       \<and> (length scored \<le> 5 \<longrightarrow> mset ranked = mset scored)
       \<and> (scored = [] \<longrightarrow> ranked = [])
       \<and> (\<forall>a \<in> set ranked. \<forall>b \<in> set (drop 5 (sortByImpact scored)).
             impactScore b \<le> impactScore a)"
    unfolding Let_def
    using top5_properties(1,2,3,5) [of scored] top5_properties(6,7) [of scored]
      top5_properties(8) [of _ scored]
    by blast
qed

text \<open>
  The theorem on the sample repository: four insights are scored \<open>63, 67, 40, 44\<close>, and
  all four are returned in the order \<open>67, 63, 44, 40\<close>.
\<close>

theorem ranked_output_sorted_top_five_witness:
  "map impactScore
     (scoreInsights fixedClock (uniqueAnomaliesOf sampleDb fixedClock)
        (collectInsights (uniqueAnomaliesOf sampleDb fixedClock)
           (analyzeCorrelations sampleDb 0 (uniqueAnomaliesOf sampleDb fixedClock))))
     = [63, 67, 40, 44]
   \<and> map impactScore (generateBusinessInsights sampleDb 0 fixedClock) = [67, 63, 44, 40]
   \<and> mset (generateBusinessInsights sampleDb 0 fixedClock)
       = mset (scoreInsights fixedClock (uniqueAnomaliesOf sampleDb fixedClock)
                (collectInsights (uniqueAnomaliesOf sampleDb fixedClock)
                   (analyzeCorrelations sampleDb 0 (uniqueAnomaliesOf sampleDb fixedClock))))"
proof -
  define scored where "scored =
     scoreInsights fixedClock (uniqueAnomaliesOf sampleDb fixedClock)
        (collectInsights (uniqueAnomaliesOf sampleDb fixedClock)
           (analyzeCorrelations sampleDb 0 (uniqueAnomaliesOf sampleDb fixedClock)))"
  have scored: "scored
     = [(generateTrafficInsight goaTraffic)\<lparr>impactScore := 63\<rparr>,
        (generatePerformanceInsight goaLoadTime)\<lparr>impactScore := 67\<rparr>,
        (generateTrafficInsight checkoutTraffic)\<lparr>impactScore := 40\<rparr>,
        (generatePerformanceInsight checkoutLoadTime)\<lparr>impactScore := 44\<rparr>]"
    unfolding scored_def sample_unique sample_correlations sample_insights
    by (rule sample_scored)
  then have len: "length scored \<le> 5" by simp
  note inst = ranked_output_sorted_top_five [of sampleDb 0 fixedClock scored,
      folded scored_def, unfolded Let_def]
  from inst have ranked: "generateBusinessInsights sampleDb 0 fixedClock
      = take 5 (sortByImpact scored)"
    by blast
  from inst len have "mset (take 5 (sortByImpact scored)) = mset scored"
    by blast
  with ranked have all: "mset (generateBusinessInsights sampleDb 0 fixedClock) = mset scored"
    by simp
  from ranked have "map impactScore (generateBusinessInsights sampleDb 0 fixedClock)
      = [67, 63, 44, 40]"
    unfolding scored sample_ranked by simp
  moreover from scored have "map impactScore scored = [63, 67, 40, 44]" by simp
  ultimately show ?thesis using all unfolding scored_def by blast
qed

section \<open>The empty result\<close>

text \<open>
  Claim C9. \<open>generateBusinessInsights\<close> is a total function of the repository and the
  clock: it has no error result. When neither detection pass finds an anomaly it returns
  the empty list, and the controller's response then has \<open>success = true\<close>, an empty
  \<open>insights\<close> array and leaves the insight store untouched. The \<open>success\<close> flag is \<open>true\<close>
  in every response, also when storing the insights throws.
\<close>

theorem no_anomalies_empty_success:
  "success (fst (getBusinessInsights create s db tz clk)) = True
   \<and> insights (fst (getBusinessInsights create s db tz clk)) = generateBusinessInsights db tz clk
   \<and> (detectAnomalies db (atDetection clk) = []
        \<and> detectGranularAnomalies db (atGranular clk) = [] \<longrightarrow>
        generateBusinessInsights db tz clk = []
      \<and> getBusinessInsights create s db tz clk
          = (\<lparr>success = True, responseTimestamp = atResponse clk,
              cachedUntil = atResponse clk + 900000, insights = []\<rparr>, s))"
proof (intro conjI impI)
  show "success (fst (getBusinessInsights create s db tz clk)) = True"
    by (simp add: getBusinessInsights_def Let_def)
  show "insights (fst (getBusinessInsights create s db tz clk))
      = generateBusinessInsights db tz clk"
    by (simp add: getBusinessInsights_def Let_def)
next
  assume quiet: "detectAnomalies db (atDetection clk) = []
        \<and> detectGranularAnomalies db (atGranular clk) = []"
  then show none: "generateBusinessInsights db tz clk = []"
    by (intro no_anomalies_no_insights) simp_all
  then show "getBusinessInsights create s db tz clk
          = (\<lparr>success = True, responseTimestamp = atResponse clk,
              cachedUntil = atResponse clk + 900000, insights = []\<rparr>, s)"
    by (simp add: getBusinessInsights_def Let_def)
qed

text \<open>
  The theorem on \<open>granularDb\<close>, a repository with rows but no anomaly, with a store whose
  every write throws.
\<close>

theorem no_anomalies_empty_success_witness:
  "detectAnomalies granularDb (atDetection fixedClock) = []
   \<and> detectGranularAnomalies granularDb (atGranular fixedClock) = []
   \<and> generateBusinessInsights granularDb 0 fixedClock = []
   \<and> getBusinessInsights (\<lambda>s r. None) (0 :: nat) granularDb 0 fixedClock
       = (\<lparr>success = True, responseTimestamp = 108000000, cachedUntil = 108900000,
           insights = []\<rparr>, 0)"
proof -
  have quiet: "detectAnomalies granularDb (atDetection fixedClock) = []
      \<and> detectGranularAnomalies granularDb (atGranular fixedClock) = []"
    by (simp add: fixedClock_def quiet_repository)
  from no_anomalies_empty_success [of "\<lambda>s r. None" "0 :: nat" granularDb 0 fixedClock] quiet
  have "generateBusinessInsights granularDb 0 fixedClock = []
      \<and> getBusinessInsights (\<lambda>s r. None) (0 :: nat) granularDb 0 fixedClock
          = (\<lparr>success = True, responseTimestamp = atResponse fixedClock,
              cachedUntil = atResponse fixedClock + 900000, insights = []\<rparr>, 0)"
    by blast
  with quiet show ?thesis by (simp add: fixedClock_def)
qed

section \<open>Correlation rules\<close>




end
